theory Spec2Isabelle
  imports Complex_Main "HOL-Library.Word"
begin

section \<open>Strings\<close>

text \<open>
  A Go string is a byte sequence holding UTF-8 text; it is modelled by the list of its
  Unicode code points (Go's runes). The strings of a payload come out of
  \<^verbatim>\<open>encoding/json\<close>, which yields valid UTF-8, and on valid UTF-8 equality,
  concatenation and the empty string are the same on both readings. The video identifier
  is the caller's; the regular expression reads it rune by rune, and a byte that is not
  UTF-8 reads as U+FFFD. \<open>str\<close> lifts an ASCII literal.
\<close>

type_synonym rune = nat
type_synonym gostring = "rune list"

abbreviation str :: "string \<Rightarrow> gostring" where
  "str s \<equiv> map of_char s"

section \<open>Machine numbers\<close>

text \<open>
  Go's \<^verbatim>\<open>int\<close> is a 64-bit two's-complement integer on the platforms this library is
  built for: \<open>+\<close> on \<open>int64\<close> wraps, \<open>sint\<close> reads the signed value.
\<close>

type_synonym int64 = "64 word"

text \<open>
  A finite \<^verbatim>\<open>float64\<close> is modelled by the rational number it denotes. Every arithmetic
  operation computes the exact rational result and rounds it to the nearest double, ties
  to the even significand (IEEE 754 binary64: 53 significant bits, gradual underflow below
  \<open>2\<^sup>-\<^sup>1\<^sup>0\<^sup>2\<^sup>2\<close>). Infinities and NaN are not values of the model; the numbers of this
  program stay far below the overflow threshold, and the one place where a product can
  leave the range of doubles feeds a conversion to \<open>int64\<close> whose result is the same for
  every out-of-range argument.
\<close>

type_synonym float64 = rat

text \<open>\<open>ilog2 n\<close> is \<open>\<lfloor>log\<^sub>2 n\<rfloor>\<close> for \<open>n \<ge> 1\<close>; \<open>rat_ilog2 r\<close> is \<open>\<lfloor>log\<^sub>2 r\<rfloor>\<close> for \<open>r > 0\<close>.\<close>

function ilog2 :: "int \<Rightarrow> int" where
  "ilog2 n = (if n < 2 then 0 else 1 + ilog2 (n div 2))"
  by pat_completeness auto
termination
  by (relation "measure nat") auto

declare ilog2.simps [simp del]

definition rat_ilog2 :: "rat \<Rightarrow> int" where
  "rat_ilog2 r = (if 1 \<le> r then ilog2 \<lfloor>r\<rfloor> else - (ilog2 (\<lceil>1 / r\<rceil> - 1) + 1))"

definition round_half_even :: "rat \<Rightarrow> int" where
  "round_half_even r =
     (let f = \<lfloor>r\<rfloor>; d = r - of_int f
      in if d < 1 / 2 then f else if 1 / 2 < d then f + 1 else if even f then f else f + 1)"

text \<open>
  \<open>f64_round x\<close>: the double nearest to \<open>x\<close>. With \<open>2\<^sup>e \<le> |x| < 2\<^sup>e\<^sup>+\<^sup>1\<close> the doubles around \<open>x\<close>
  are the multiples of \<open>f64_ulp x = 2\<^sup>e\<^sup>-\<^sup>5\<^sup>2\<close> (of \<open>2\<^sup>-\<^sup>1\<^sup>0\<^sup>7\<^sup>4\<close> in the subnormal range).
\<close>

definition f64_ulp :: "rat \<Rightarrow> rat" where
  "f64_ulp x = 2 powi (max (rat_ilog2 \<bar>x\<bar> - 52) (- 1074))"

definition f64_round :: "rat \<Rightarrow> float64" where
  "f64_round x =
     (if x = 0 then 0 else of_int (round_half_even (x / f64_ulp x)) * f64_ulp x)"

definition f64_of_int :: "int \<Rightarrow> float64" where
  "f64_of_int k = f64_round (of_int k)"

definition f64_add :: "float64 \<Rightarrow> float64 \<Rightarrow> float64" where
  "f64_add a b = f64_round (a + b)"

definition f64_mul :: "float64 \<Rightarrow> float64 \<Rightarrow> float64" where
  "f64_mul a b = f64_round (a * b)"

definition f64_div :: "float64 \<Rightarrow> float64 \<Rightarrow> float64" where
  "f64_div a b = f64_round (a / b)"

text \<open>
  The conversion \<^verbatim>\<open>int(x)\<close> of a float64 truncates towards zero. For a value outside
  the range of \<open>int64\<close> the language leaves the result to the implementation; the model
  takes \<open>-2\<^sup>6\<^sup>3\<close>, the value the amd64 conversion instruction produces.
\<close>

definition f64_to_int :: "float64 \<Rightarrow> int" where
  "f64_to_int x =
     (let k = (if 0 \<le> x then \<lfloor>x\<rfloor> else \<lceil>x\<rceil>)
      in if - (2 ^ 63) \<le> k \<and> k < 2 ^ 63 then k else - (2 ^ 63))"

text \<open>Go's integer \<^verbatim>\<open>/\<close> and \<^verbatim>\<open>%\<close> truncate towards zero; the remainder has the dividend's sign.\<close>

definition quot :: "int \<Rightarrow> int \<Rightarrow> int" where
  "quot a b = sgn a * sgn b * (\<bar>a\<bar> div \<bar>b\<bar>)"

definition rem :: "int \<Rightarrow> int \<Rightarrow> int" where
  "rem a b = a - b * quot a b"

section \<open>Data model of the downloader\<close>

text \<open>
  The three package-level error values, the errors the program builds with
  \<^verbatim>\<open>fmt.Errorf\<close> (a server error and any other HTTP status, each with the status code;
  \<open>Wrapped\<close> is a message put in front of an error with \<^verbatim>\<open>%w\<close>), and the errors
  of the libraries: of \<^verbatim>\<open>client.Do\<close>, \<^verbatim>\<open>io.ReadAll\<close>, \<^verbatim>\<open>json.Unmarshal\<close> and
  \<^verbatim>\<open>http.NewRequest\<close>.
\<close>

datatype error =
    ErrInvalidVideoID
  | ErrNoCaptionsFound
  | ErrRateLimited
  | ServerError int
  | HTTPError int
  | TransportError
  | ReadError
  | UnmarshalError
  | URLError
  | Wrapped string error

text \<open>
  \<^verbatim>\<open>CaptionTrack\<close>: the nested \<^verbatim>\<open>Name.SimpleText\<close> is flattened into one field.
\<close>

record CaptionTrack =
  BaseURL :: gostring
  LanguageCode :: gostring
  SimpleText :: gostring
  Kind :: gostring

text \<open>
  \<^verbatim>\<open>Options\<close>. Its field \<^verbatim>\<open>Kind\<close> is written \<open>OptKind\<close>, the track's field keeps
  the name; \<^verbatim>\<open>Timeout\<close> is a \<^verbatim>\<open>time.Duration\<close>, an \<open>int64\<close> of nanoseconds.
\<close>

record Options =
  Language :: gostring
  OptKind :: gostring
  Timeout :: int64
  MaxRetries :: int64
  UserAgent :: gostring

section \<open>The caption payload and its text spans\<close>

record CaptionSegment =
  UTF8 :: gostring
  TOffsetMs :: int64
  AcAsrConf :: int64

record CaptionEvent =
  TStartMs :: int64
  Segments :: "CaptionSegment list"

record Caption =
  Events :: "CaptionEvent list"

record SubtitleText =
  StartTime :: float64
  EndTime :: float64
  Text :: gostring

text \<open>
  \<^verbatim>\<open>strings.TrimSpace\<close> removes leading and trailing white space as Unicode defines it
  (\<^verbatim>\<open>unicode.IsSpace\<close>): tab, line feed, vertical tab, form feed, carriage return, space,
  U+0085, U+00A0, U+1680, U+2000 to U+200A, U+2028, U+2029, U+202F, U+205F and U+3000.
\<close>

definition isSpace :: "rune \<Rightarrow> bool" where
  "isSpace r \<longleftrightarrow>
     r = 9 \<or> r = 10 \<or> r = 11 \<or> r = 12 \<or> r = 13 \<or> r = 32 \<or> r = 133 \<or> r = 160 \<or>
     r = 5760 \<or> (8192 \<le> r \<and> r \<le> 8202) \<or> r = 8232 \<or> r = 8233 \<or> r = 8239 \<or>
     r = 8287 \<or> r = 12288"

definition TrimSpace :: "gostring \<Rightarrow> gostring" where
  "TrimSpace s = rev (dropWhile isSpace (rev (dropWhile isSpace s)))"

text \<open>
  \<^verbatim>\<open>sort.Slice\<close> with the comparison \<open>lt\<close>. The library promises a sorted permutation
  and no stability; up to twelve elements it runs the insertion sort below, which lets each
  element travel left past the elements it is less than. The prefix built so far is kept
  reversed, so that the neighbour to the left is the head.
\<close>

primrec insertLeft :: "('a \<Rightarrow> 'a \<Rightarrow> bool) \<Rightarrow> 'a \<Rightarrow> 'a list \<Rightarrow> 'a list" where
  "insertLeft lt x [] = [x]"
| "insertLeft lt x (y # ys) = (if lt x y then y # insertLeft lt x ys else x # y # ys)"

definition sortSlice :: "('a \<Rightarrow> 'a \<Rightarrow> bool) \<Rightarrow> 'a list \<Rightarrow> 'a list" where
  "sortSlice lt xs = rev (foldl (\<lambda>acc x. insertLeft lt x acc) [] xs)"

subsection \<open>\<^verbatim>\<open>GetSubtitleText\<close>\<close>

text \<open>
  The inner loop over the segments of one event carries the string builder and
  \<^verbatim>\<open>endTime\<close>; \<open>tStart\<close> is the event's \<^verbatim>\<open>TStartMs\<close>.
\<close>

fun segmentLoop :: "int64 \<Rightarrow> CaptionSegment list \<Rightarrow> gostring \<times> float64 \<Rightarrow> gostring \<times> float64" where
  "segmentLoop tStart [] (text, endTime) = (text, endTime)"
| "segmentLoop tStart (seg # segs) (text, endTime) =
     (if UTF8 seg \<noteq> str ''\<newline>''
      then (let segEndTime = f64_div (f64_of_int (sint (tStart + TOffsetMs seg))) 1000
            in segmentLoop tStart segs
                 (text @ UTF8 seg, if segEndTime > endTime then segEndTime else endTime))
      else segmentLoop tStart segs (text, endTime))"

text \<open>The outer loop over the events appends to \<^verbatim>\<open>result\<close>.\<close>

fun eventLoop :: "CaptionEvent list \<Rightarrow> SubtitleText list \<Rightarrow> SubtitleText list" where
  "eventLoop [] result = result"
| "eventLoop (event # events) result =
     (if length (Segments event) = 0 then eventLoop events result
      else (let startTime = f64_div (f64_of_int (sint (TStartMs event))) 1000;
                (text, endTime) = segmentLoop (TStartMs event) (Segments event) ([], startTime);
                textStr = TrimSpace text
            in if textStr \<noteq> []
               then eventLoop events
                      (result @ [\<lparr>StartTime = startTime, EndTime = endTime, Text = textStr\<rparr>])
               else eventLoop events result))"

definition GetSubtitleText :: "Caption \<Rightarrow> SubtitleText list" where
  "GetSubtitleText c =
     sortSlice (\<lambda>a b. StartTime a < StartTime b) (eventLoop (Events c) [])"

subsection \<open>Time codes\<close>

text \<open>\<^verbatim>\<open>time.Duration\<close> counts nanoseconds in an \<open>int64\<close>; the model carries its signed value.\<close>

definition Second :: int where "Second = 1000000000"
definition Minute :: int where "Minute = 60 * Second"
definition Hour :: int where "Hour = 60 * Minute"

definition Hours :: "int \<Rightarrow> float64" where
  "Hours d =
     (let hour = quot d Hour; nsec = rem d Hour
      in f64_add (f64_of_int hour) (f64_div (f64_of_int nsec) (60 * 60 * 1000000000)))"

definition Minutes :: "int \<Rightarrow> float64" where
  "Minutes d =
     (let minute = quot d Minute; nsec = rem d Minute
      in f64_add (f64_of_int minute) (f64_div (f64_of_int nsec) (60 * 1000000000)))"

definition Seconds :: "int \<Rightarrow> float64" where
  "Seconds d =
     (let sec = quot d Second; nsec = rem d Second
      in f64_add (f64_of_int sec) (f64_div (f64_of_int nsec) 1000000000))"

definition Nanoseconds :: "int \<Rightarrow> int" where
  "Nanoseconds d = d"

text \<open>Decimal digits of a non-negative integer, and the verbs \<^verbatim>\<open>%d\<close> and \<^verbatim>\<open>%0wd\<close>.\<close>

function digits :: "int \<Rightarrow> gostring" where
  "digits n = (if n < 10 then [48 + nat n] else digits (n div 10) @ [48 + nat (n mod 10)])"
  by pat_completeness auto
termination
  by (relation "measure nat") auto

declare digits.simps [simp del]

definition fmt_d :: "int \<Rightarrow> gostring" where
  "fmt_d n = (if n < 0 then 45 # digits (- n) else digits n)"

text \<open>
  With the zero flag the width counts a minus sign: the digits are padded with zeros to
  \<open>w\<close> places for \<open>n \<ge> 0\<close> and to \<open>w - 1\<close> places after the sign for \<open>n < 0\<close>.
\<close>

definition zeroPad :: "nat \<Rightarrow> gostring \<Rightarrow> gostring" where
  "zeroPad w ds = replicate (w - length ds) 48 @ ds"

definition fmt_0d :: "nat \<Rightarrow> int \<Rightarrow> gostring" where
  "fmt_0d w n = (if n < 0 then 45 # zeroPad (w - 1) (digits (- n)) else zeroPad w (digits n))"

text \<open>
  The two formatters are separate functions in the source and are transcribed separately.
  \<open>srtFields\<close> and \<open>vttFields\<close> are the four locals each of them computes.
\<close>

definition srtFields :: "float64 \<Rightarrow> int \<times> int \<times> int \<times> int" where
  "srtFields seconds =
     (let t = f64_to_int (f64_mul seconds (f64_of_int Second));
          hours = f64_to_int (Hours t);
          minutes = rem (f64_to_int (Minutes t)) 60;
          secs = rem (f64_to_int (Seconds t)) 60;
          millis = rem (quot (Nanoseconds t) 1000000) 1000
      in (hours, minutes, secs, millis))"

definition formatSRTTime :: "float64 \<Rightarrow> gostring" where
  "formatSRTTime seconds =
     (case srtFields seconds of (hours, minutes, secs, millis) \<Rightarrow>
        fmt_0d 2 hours @ str '':'' @ fmt_0d 2 minutes @ str '':'' @ fmt_0d 2 secs @ str '',''
          @ fmt_0d 3 millis)"

definition vttFields :: "float64 \<Rightarrow> int \<times> int \<times> int \<times> int" where
  "vttFields seconds =
     (let t = f64_to_int (f64_mul seconds (f64_of_int Second));
          hours = f64_to_int (Hours t);
          minutes = rem (f64_to_int (Minutes t)) 60;
          secs = rem (f64_to_int (Seconds t)) 60;
          millis = rem (quot (Nanoseconds t) 1000000) 1000
      in (hours, minutes, secs, millis))"

definition formatVTTTime :: "float64 \<Rightarrow> gostring" where
  "formatVTTTime seconds =
     (case vttFields seconds of (hours, minutes, secs, millis) \<Rightarrow>
        fmt_0d 2 hours @ str '':'' @ fmt_0d 2 minutes @ str '':'' @ fmt_0d 2 secs @ str ''.''
          @ fmt_0d 3 millis)"

subsection \<open>The three renderings\<close>

fun plainLoop :: "SubtitleText list \<Rightarrow> gostring \<Rightarrow> gostring" where
  "plainLoop [] result = result"
| "plainLoop (sub # subs) result = plainLoop subs (result @ Text sub @ str '' '')"

definition GetPlainText :: "Caption \<Rightarrow> gostring" where
  "GetPlainText c = TrimSpace (plainLoop (GetSubtitleText c) [])"

fun srtLoop :: "int \<Rightarrow> SubtitleText list \<Rightarrow> gostring \<Rightarrow> gostring" where
  "srtLoop i [] result = result"
| "srtLoop i (sub # subs) result =
     srtLoop (i + 1) subs
       (result @ (fmt_d (i + 1) @ str ''\<newline>'')
          @ (formatSRTTime (StartTime sub) @ str '' --> '' @ formatSRTTime (EndTime sub)
               @ str ''\<newline>'')
          @ Text sub @ str ''\<newline>\<newline>'')"

definition GetSRT :: "Caption \<Rightarrow> gostring" where
  "GetSRT c = srtLoop 0 (GetSubtitleText c) []"

fun vttLoop :: "SubtitleText list \<Rightarrow> gostring \<Rightarrow> gostring" where
  "vttLoop [] result = result"
| "vttLoop (sub # subs) result =
     vttLoop subs
       (result @ (formatVTTTime (StartTime sub) @ str '' --> '' @ formatVTTTime (EndTime sub)
               @ str ''\<newline>'')
          @ Text sub @ str ''\<newline>\<newline>'')"

definition GetVTT :: "Caption \<Rightarrow> gostring" where
  "GetVTT c = vttLoop (GetSubtitleText c) (str ''WEBVTT\<newline>\<newline>'')"

section \<open>Track selection\<close>

text \<open>
  \<^verbatim>\<open>findCaptionTrack\<close> runs two loops over the tracks and then looks at the first
  element. Each loop returns from the function at its first hit; \<open>None\<close> stands for a loop
  that ran to its end.
\<close>

primrec findExact :: "CaptionTrack list \<Rightarrow> Options \<Rightarrow> CaptionTrack option" where
  "findExact [] opts = None"
| "findExact (track # rest) opts =
     (if LanguageCode track = Language opts \<and> Kind track = OptKind opts
      then (if BaseURL track \<noteq> [] then Some track else findExact rest opts)
      else findExact rest opts)"

primrec findLanguage :: "CaptionTrack list \<Rightarrow> Options \<Rightarrow> CaptionTrack option" where
  "findLanguage [] opts = None"
| "findLanguage (track # rest) opts =
     (if LanguageCode track = Language opts
      then (if BaseURL track \<noteq> [] then Some track else findLanguage rest opts)
      else findLanguage rest opts)"

definition findCaptionTrack :: "CaptionTrack list \<Rightarrow> Options \<Rightarrow> error + CaptionTrack" where
  "findCaptionTrack tracks opts =
     (case findExact tracks opts of
        Some track \<Rightarrow> Inr track
      | None \<Rightarrow>
         (case findLanguage tracks opts of
            Some track \<Rightarrow> Inr track
          | None \<Rightarrow>
             (if length tracks > 0 \<and> BaseURL (tracks ! 0) \<noteq> []
              then Inr (tracks ! 0)
              else Inl ErrNoCaptionsFound)))"

text \<open>The tiers in the words of the specification, as predicates on one track.\<close>

definition tier1 :: "Options \<Rightarrow> CaptionTrack \<Rightarrow> bool" where
  "tier1 opts t \<longleftrightarrow>
     LanguageCode t = Language opts \<and> Kind t = OptKind opts \<and> BaseURL t \<noteq> []"

definition tier2 :: "Options \<Rightarrow> CaptionTrack \<Rightarrow> bool" where
  "tier2 opts t \<longleftrightarrow> LanguageCode t = Language opts \<and> BaseURL t \<noteq> []"

text \<open>\<open>first_at P xs i\<close>: position \<open>i\<close> holds the first element of \<open>xs\<close> with \<open>P\<close>.\<close>

definition first_at :: "('a \<Rightarrow> bool) \<Rightarrow> 'a list \<Rightarrow> nat \<Rightarrow> bool" where
  "first_at P xs i \<longleftrightarrow> i < length xs \<and> P (xs ! i) \<and> list_all (\<lambda>x. \<not> P x) (take i xs)"

text \<open>A track with the given URL, language and kind, as the scenarios write them.\<close>

definition mkTrack :: "gostring \<Rightarrow> gostring \<Rightarrow> gostring \<Rightarrow> CaptionTrack" where
  "mkTrack url lang kind =
     \<lparr>BaseURL = url, LanguageCode = lang, SimpleText = [], Kind = kind\<rparr>"

subsection \<open>The extraction in the words of the specification\<close>

text \<open>
  The segments of an event that are not the newline marker, the three components of the
  event's span, and the span itself (none for an event without segments or with blank text).
  \<open>segmentEnd\<close> is \<^verbatim>\<open>(startOffsetMs + offsetMs) / 1000\<close>, the sum taken in \<open>int64\<close> and the
  quotient in \<open>float64\<close>, as the program's types have it.
\<close>

definition spokenSegments :: "CaptionEvent \<Rightarrow> CaptionSegment list" where
  "spokenSegments ev = filter (\<lambda>seg. UTF8 seg \<noteq> str ''\<newline>'') (Segments ev)"

definition spanStart :: "CaptionEvent \<Rightarrow> float64" where
  "spanStart ev = f64_div (f64_of_int (sint (TStartMs ev))) 1000"

definition segmentEnd :: "CaptionEvent \<Rightarrow> CaptionSegment \<Rightarrow> float64" where
  "segmentEnd ev seg = f64_div (f64_of_int (sint (TStartMs ev + TOffsetMs seg))) 1000"

definition spanText :: "CaptionEvent \<Rightarrow> gostring" where
  "spanText ev = TrimSpace (concat (map UTF8 (spokenSegments ev)))"

text \<open>
  The end of the span as the claim words it: the largest segment end, and the start only
  when there is no segment other than newline markers.
\<close>

definition claimedSpanEnd :: "CaptionEvent \<Rightarrow> float64" where
  "claimedSpanEnd ev =
     (if spokenSegments ev = [] then spanStart ev
      else Max (set (map (segmentEnd ev) (spokenSegments ev))))"

text \<open>The end of the span as the loop computes it: the start takes part in the maximum.\<close>

definition spanEnd :: "CaptionEvent \<Rightarrow> float64" where
  "spanEnd ev = Max (insert (spanStart ev) (set (map (segmentEnd ev) (spokenSegments ev))))"

definition eventSpan :: "CaptionEvent \<Rightarrow> SubtitleText option" where
  "eventSpan ev =
     (if Segments ev = [] \<or> spanText ev = [] then None
      else Some \<lparr>StartTime = spanStart ev, EndTime = spanEnd ev, Text = spanText ev\<rparr>)"

text \<open>The characters the two time codes differ in.\<close>

definition commaToPeriod :: "rune \<Rightarrow> rune" where
  "commaToPeriod c = (if c = of_char CHR '','' then of_char CHR ''.'' else c)"

section \<open>The transport\<close>

text \<open>
  What a request can meet. The body of a response carries what the two decoders of the
  program make of it: the track list \<^verbatim>\<open>json.Unmarshal\<close> finds under
  \<^verbatim>\<open>captions.playerCaptionsTracklistRenderer.captionTracks\<close> and the caption it
  finds under \<^verbatim>\<open>events\<close>, each \<open>None\<close> when that decoding returns an error;
  \<open>Unreadable\<close> is a body on which \<^verbatim>\<open>io.ReadAll\<close> fails.
\<close>

datatype body = Unreadable | Readable "CaptionTrack list option" "Caption option"

record Response =
  StatusCode :: int
  Body :: body

datatype outcome = Failed | Replied Response

datatype payload = NoPayload | PlayerRequest gostring gostring gostring

record Request =
  Method :: gostring
  URL :: gostring
  HeaderContentType :: gostring
  HeaderUserAgent :: gostring
  Payload :: payload

text \<open>
  The state a call runs in: the requests handed to \<^verbatim>\<open>client.Do\<close> so far, the clock in
  nanoseconds, and the number of values drawn from \<^verbatim>\<open>rand.Float64\<close>. The surroundings
  are parameters: the latency and outcome of the \<open>k\<close>-th \<^verbatim>\<open>client.Do\<close> (a cancelled or
  expired context shows as \<open>Failed\<close>), the \<open>k\<close>-th random value, and whether
  \<^verbatim>\<open>http.NewRequest\<close> accepts a URL.
\<close>

record World =
  sent :: "Request list"
  now :: int
  draws :: nat

record Env =
  reply :: "nat \<Rightarrow> Request \<Rightarrow> nat \<times> outcome"
  random :: "nat \<Rightarrow> float64"
  parseURL :: "gostring \<Rightarrow> bool"

subsection \<open>The exponential back-off of \<^verbatim>\<open>github.com/cenkalti/backoff/v4\<close>\<close>

text \<open>
  The library is not part of the repository; its policy object and its retry loop are
  transcribed from the library as the program uses them (version 4, defaults 500 ms initial
  interval, randomization factor 0.5, multiplier 1.5, interval cap 60 s).
\<close>

definition Millisecond :: int where "Millisecond = 1000000"

definition Stop :: int where "Stop = - 1"

record ExponentialBackOff =
  InitialInterval :: int
  RandomizationFactor :: float64
  Multiplier :: float64
  MaxInterval :: int
  MaxElapsedTime :: int
  currentInterval :: int
  startTime :: int

definition Reset :: "ExponentialBackOff \<Rightarrow> World \<Rightarrow> ExponentialBackOff" where
  "Reset b w = b\<lparr>currentInterval := InitialInterval b, startTime := now w\<rparr>"

definition NewExponentialBackOff :: "World \<Rightarrow> ExponentialBackOff" where
  "NewExponentialBackOff w =
     Reset \<lparr>InitialInterval = 500 * Millisecond, RandomizationFactor = 1 / 2,
            Multiplier = 3 / 2, MaxInterval = 60 * Second, MaxElapsedTime = 15 * Minute,
            currentInterval = 0, startTime = 0\<rparr> w"

definition f64_sub :: "float64 \<Rightarrow> float64 \<Rightarrow> float64" where
  "f64_sub a b = f64_round (a - b)"

definition getRandomValueFromInterval :: "float64 \<Rightarrow> float64 \<Rightarrow> int \<Rightarrow> int" where
  "getRandomValueFromInterval randomizationFactor rnd interval =
     (if randomizationFactor = 0 then interval
      else (let delta = f64_mul randomizationFactor (f64_of_int interval);
                minInterval = f64_sub (f64_of_int interval) delta;
                maxInterval = f64_add (f64_of_int interval) delta
            in f64_to_int
                 (f64_add minInterval
                    (f64_mul rnd (f64_add (f64_sub maxInterval minInterval) 1)))))"

definition incrementCurrentInterval :: "ExponentialBackOff \<Rightarrow> ExponentialBackOff" where
  "incrementCurrentInterval b =
     (if f64_of_int (currentInterval b) \<ge> f64_div (f64_of_int (MaxInterval b)) (Multiplier b)
      then b\<lparr>currentInterval := MaxInterval b\<rparr>
      else b\<lparr>currentInterval := f64_to_int (f64_mul (f64_of_int (currentInterval b)) (Multiplier b))\<rparr>)"

text \<open>
  \<^verbatim>\<open>NextBackOff\<close> draws the next delay around the current interval, enlarges the interval,
  and answers \<open>Stop\<close> when the time elapsed since \<^verbatim>\<open>Reset\<close> plus that delay exceeds
  \<^verbatim>\<open>MaxElapsedTime\<close>; a \<^verbatim>\<open>MaxElapsedTime\<close> of zero means no limit.
\<close>

definition NextBackOff ::
  "Env \<Rightarrow> ExponentialBackOff \<Rightarrow> World \<Rightarrow> int \<times> ExponentialBackOff \<times> World" where
  "NextBackOff env b w =
     (let elapsed = now w - startTime b;
          next = getRandomValueFromInterval (RandomizationFactor b) (random env (draws w))
                   (currentInterval b);
          w' = w\<lparr>draws := draws w + 1\<rparr>;
          b' = incrementCurrentInterval b
      in if MaxElapsedTime b \<noteq> 0 \<and> elapsed + next > MaxElapsedTime b
         then (Stop, b', w') else (next, b', w'))"

subsection \<open>\<^verbatim>\<open>makeRequestWithRetry\<close>\<close>

text \<open>
  \<^verbatim>\<open>client.Do\<close>: the request is recorded, the clock advances by the latency, and the
  outcome is what the call returns to the \<open>k\<close>-th attempt: a response with its status, or
  an error of the transport (a refused connection, a deadline, or the body of a request
  that an earlier attempt has read and that cannot be sent a second time).
\<close>

definition clientDo :: "Env \<Rightarrow> Request \<Rightarrow> World \<Rightarrow> outcome \<times> World" where
  "clientDo env req w =
     (case reply env (length (sent w)) req of
        (latency, out) \<Rightarrow> (out, w\<lparr>sent := sent w @ [req], now := now w + int latency\<rparr>))"

text \<open>
  The closure \<^verbatim>\<open>operation\<close>. It returns the error, or the response it stored in
  \<^verbatim>\<open>resp\<close> when the error is nil (no caller reads \<^verbatim>\<open>resp\<close> next to an error).
\<close>

definition operation :: "Env \<Rightarrow> Request \<Rightarrow> World \<Rightarrow> (error + Response) \<times> World" where
  "operation env req w =
     (case clientDo env req w of
        (Failed, w') \<Rightarrow> (Inl TransportError, w')
      | (Replied resp, w') \<Rightarrow>
          (if StatusCode resp = 200 then (Inr resp, w')
           else if StatusCode resp = 429 then (Inl ErrRateLimited, w')
           else if StatusCode resp = 404 then (Inl ErrNoCaptionsFound, w')
           else if StatusCode resp \<ge> 500 then (Inl (ServerError (StatusCode resp)), w')
           else (Inl (HTTPError (StatusCode resp)), w')))"

text \<open>
  The loop of \<^verbatim>\<open>backoff.Retry\<close>, after its \<^verbatim>\<open>Reset\<close>: run the operation; return on a
  nil error; otherwise ask the policy, return the error on \<open>Stop\<close>, else sleep for the
  delay and go round again. (The library returns at once on an error wrapped by
  \<^verbatim>\<open>backoff.Permanent\<close>; no operation of this program wraps one. The policy object
  carries no context, so the loop itself is never cancelled.) The loop need not end:
  \<open>None\<close> is a call that never returns.
\<close>

partial_function (option) retryLoop ::
  "(World \<Rightarrow> (error + Response) \<times> World) \<Rightarrow> Env \<Rightarrow> ExponentialBackOff \<Rightarrow> World
     \<Rightarrow> ((error + Response) \<times> World) option" where
  "retryLoop op env b w =
     (case op w of
        (Inr resp, w1) \<Rightarrow> Some (Inr resp, w1)
      | (Inl err, w1) \<Rightarrow>
          (case NextBackOff env b w1 of
             (next, b', w2) \<Rightarrow>
               if next = Stop then Some (Inl err, w2)
               else retryLoop op env b' (w2\<lparr>now := now w2 + next\<rparr>)))"

definition Retry ::
  "(World \<Rightarrow> (error + Response) \<times> World) \<Rightarrow> Env \<Rightarrow> ExponentialBackOff \<Rightarrow> World
     \<Rightarrow> ((error + Response) \<times> World) option" where
  "Retry op env b w = retryLoop op env (Reset b w) w"

definition makeRequestWithRetry ::
  "Env \<Rightarrow> Request \<Rightarrow> int64 \<Rightarrow> World \<Rightarrow> ((error + Response) \<times> World) option" where
  "makeRequestWithRetry env req maxRetries w =
     (let backoffConfig = NewExponentialBackOff w;
          backoffConfig = backoffConfig\<lparr>MaxElapsedTime := sint (maxRetries * 10 * 1000000000)\<rparr>
      in Retry (operation env req) env backoffConfig w)"

text \<open>
  The older variant of the same function (\<^verbatim>\<open>caption.go\<close>): its operation returns an error
  for a status of 500 and above and for 429 only, and the budget is fixed at 30 seconds. Any
  other response is returned with a nil error, for the caller to look at its status.
\<close>

definition operation_v1 :: "Env \<Rightarrow> Request \<Rightarrow> World \<Rightarrow> (error + Response) \<times> World" where
  "operation_v1 env req w =
     (case clientDo env req w of
        (Failed, w') \<Rightarrow> (Inl TransportError, w')
      | (Replied resp, w') \<Rightarrow>
          (if StatusCode resp \<ge> 500 \<or> StatusCode resp = 429
           then (Inl (HTTPError (StatusCode resp)), w')
           else (Inr resp, w')))"

definition makeRequestWithRetry_v1 ::
  "Env \<Rightarrow> Request \<Rightarrow> World \<Rightarrow> ((error + Response) \<times> World) option" where
  "makeRequestWithRetry_v1 env req w =
     (let backoffConfig = NewExponentialBackOff w;
          backoffConfig = backoffConfig\<lparr>MaxElapsedTime := 30 * Second\<rparr>
      in Retry (operation_v1 env req) env backoffConfig w)"

subsection \<open>The two round trips\<close>

definition playerURL :: gostring where
  "playerURL = str ''https://www.youtube.com/youtubei/v1/player?prettyPrint=false''"

definition defaultUA :: gostring where
  "defaultUA = str ''Mozilla/5.0 (Macintosh; Intel Mac OS X 10_15_7) AppleWebKit/605.1.15 (KHTML, like Gecko) Version/15.5 Safari/605.1.15''"

definition DefaultOptions :: Options where
  "DefaultOptions =
     \<lparr>Language = str ''en'', OptKind = str ''asr'', Timeout = 30 * 1000000000,
      MaxRetries = 3, UserAgent = defaultUA\<rparr>"

text \<open>The pattern \<^verbatim>\<open>^[a-zA-Z0-9_-]{11}$\<close>: exactly eleven characters of the class.\<close>

definition isVideoIDChar :: "rune \<Rightarrow> bool" where
  "isVideoIDChar c \<longleftrightarrow>
     (97 \<le> c \<and> c \<le> 122) \<or> (65 \<le> c \<and> c \<le> 90) \<or> (48 \<le> c \<and> c \<le> 57) \<or> c = 95 \<or> c = 45"

definition videoIDRegex_MatchString :: "gostring \<Rightarrow> bool" where
  "videoIDRegex_MatchString s \<longleftrightarrow> length s = 11 \<and> list_all isVideoIDChar s"

definition validateVideoID :: "gostring \<Rightarrow> error option" where
  "validateVideoID videoID =
     (if videoID = [] then Some ErrInvalidVideoID
      else if \<not> videoIDRegex_MatchString videoID then Some ErrInvalidVideoID
      else None)"

definition makeRequestData :: "gostring \<Rightarrow> payload" where
  "makeRequestData videoID = PlayerRequest (str ''WEB'') (str ''2.20250925.01.00'') videoID"

definition extractCaptionTracks :: "Response \<Rightarrow> error + CaptionTrack list" where
  "extractCaptionTracks resp =
     (case Body resp of
        Unreadable \<Rightarrow> Inl (Wrapped ''failed to read response'' ReadError)
      | Readable decodedTracks decodedCaption \<Rightarrow>
          (case decodedTracks of
             None \<Rightarrow> Inl (Wrapped ''failed to unmarshal response'' UnmarshalError)
           | Some tracks \<Rightarrow>
               if length tracks = 0 then Inl ErrNoCaptionsFound else Inr tracks))"

definition requestCaptionTrack ::
  "Env \<Rightarrow> gostring \<Rightarrow> Options \<Rightarrow> World \<Rightarrow> ((error + CaptionTrack) \<times> World) option" where
  "requestCaptionTrack env videoID opts w =
     (let data = makeRequestData videoID;
          req = \<lparr>Method = str ''POST'', URL = playerURL,
                 HeaderContentType = str ''application/json'',
                 HeaderUserAgent = UserAgent opts,
                 Payload = data\<rparr>
      in case makeRequestWithRetry env req (MaxRetries opts) w of
           None \<Rightarrow> None
         | Some (Inl err, w1) \<Rightarrow> Some (Inl (Wrapped ''failed to get response'' err), w1)
         | Some (Inr resp, w1) \<Rightarrow>
             (case extractCaptionTracks resp of
                Inl err \<Rightarrow> Some (Inl (Wrapped ''failed to extract caption tracks'' err), w1)
              | Inr tracks \<Rightarrow>
                  (case findCaptionTrack tracks opts of
                     Inl err \<Rightarrow> Some (Inl err, w1)
                   | Inr track \<Rightarrow> Some (Inr track, w1))))"

definition requestTimedText ::
  "Env \<Rightarrow> CaptionTrack \<Rightarrow> Options \<Rightarrow> World \<Rightarrow> ((error + Caption) \<times> World) option" where
  "requestTimedText env track opts w =
     (let captionURL = BaseURL track @ str ''&fmt=json3''
      in if \<not> parseURL env captionURL
         then Some (Inl (Wrapped ''failed to create request'' URLError), w)
         else (let req = \<lparr>Method = str ''GET'', URL = captionURL,
                           HeaderContentType = [], HeaderUserAgent = UserAgent opts,
                           Payload = NoPayload\<rparr>
               in case makeRequestWithRetry env req (MaxRetries opts) w of
                    None \<Rightarrow> None
                  | Some (Inl err, w1) \<Rightarrow> Some (Inl (Wrapped ''failed to get response'' err), w1)
                  | Some (Inr resp, w1) \<Rightarrow>
                      (case Body resp of
                         Unreadable \<Rightarrow>
                           Some (Inl (Wrapped ''failed to read subtitle response'' ReadError), w1)
                       | Readable decodedTracks decodedCaption \<Rightarrow>
                           (case decodedCaption of
                              None \<Rightarrow>
                                Some (Inl (Wrapped ''failed to unmarshal subtitle response''
                                             UnmarshalError), w1)
                            | Some caption \<Rightarrow> Some (Inr caption, w1)))))"

subsection \<open>The download entry points\<close>

text \<open>
  \<^verbatim>\<open>DownloadWithContext\<close>; a nil \<^verbatim>\<open>opts\<close> is \<open>None\<close>. The context reaches the model
  through the outcomes of \<^verbatim>\<open>client.Do\<close> only.
\<close>

definition DownloadWithContext ::
  "Env \<Rightarrow> gostring \<Rightarrow> Options option \<Rightarrow> World \<Rightarrow> ((error + Caption) \<times> World) option" where
  "DownloadWithContext env videoID optsPtr w =
     (case validateVideoID videoID of
        Some err \<Rightarrow> Some (Inl err, w)
      | None \<Rightarrow>
          (let opts = (case optsPtr of None \<Rightarrow> DefaultOptions | Some given \<Rightarrow> given)
           in case requestCaptionTrack env videoID opts w of
                None \<Rightarrow> None
              | Some (Inl err, w1) \<Rightarrow> Some (Inl err, w1)
              | Some (Inr track, w1) \<Rightarrow> requestTimedText env track opts w1))"

text \<open>
  \<^verbatim>\<open>DownloadWithOptions\<close> reads \<^verbatim>\<open>opts.Timeout\<close> for the deadline of its context before
  it calls \<^verbatim>\<open>DownloadWithContext\<close>, and so before the identifier is validated: with a nil
  \<^verbatim>\<open>opts\<close> the call panics. A panic is no error value of the program; it is the left
  summand of the result here. \<^verbatim>\<open>Download\<close> passes the pointer \<^verbatim>\<open>DefaultOptions()\<close>
  returns, which is never nil.
\<close>

datatype panic = NilPointerDereference

definition DownloadWithOptions ::
  "Env \<Rightarrow> gostring \<Rightarrow> Options option \<Rightarrow> World
     \<Rightarrow> panic + ((error + Caption) \<times> World) option" where
  "DownloadWithOptions env videoID optsPtr w =
     (case optsPtr of
        None \<Rightarrow> Inl NilPointerDereference
      | Some opts \<Rightarrow> (let timeout = Timeout opts in Inr (DownloadWithContext env videoID optsPtr w)))"

definition Download ::
  "Env \<Rightarrow> gostring \<Rightarrow> World \<Rightarrow> panic + ((error + Caption) \<times> World) option" where
  "Download env videoID w = DownloadWithOptions env videoID (Some DefaultOptions) w"

subsection \<open>Surroundings for the examples\<close>

text \<open>A network that is never reached, and a server that answers 404 once and then 200.\<close>

definition noNetwork :: Env where
  "noNetwork = \<lparr>reply = (\<lambda>k req. (0, Failed)), random = (\<lambda>k. 0), parseURL = (\<lambda>u. False)\<rparr>"

definition notFoundThenOK :: Env where
  "notFoundThenOK =
     \<lparr>reply = (\<lambda>k req. (100000000,
                 Replied \<lparr>StatusCode = (if k = 0 then 404 else 200),
                          Body = Readable (Some []) None\<rparr>)),
      random = (\<lambda>k. 1 / 2), parseURL = (\<lambda>u. True)\<rparr>"

subsection \<open>The retry policy in the words of the specification\<close>

text \<open>
  The error \<^verbatim>\<open>operation\<close> makes of a status other than 200; the policy object as
  \<^verbatim>\<open>makeRequestWithRetry\<close> sets it up and as it is after any number of rounds; the
  interval of the next round (half as long again, capped at 60 seconds); and random values
  as \<^verbatim>\<open>rand.Float64\<close> yields them, in \<open>[0, 1)\<close>.
\<close>

definition statusError :: "int \<Rightarrow> error" where
  "statusError code =
     (if code = 429 then ErrRateLimited
      else if code = 404 then ErrNoCaptionsFound
      else if code \<ge> 500 then ServerError code
      else HTTPError code)"

definition inService :: "ExponentialBackOff \<Rightarrow> bool" where
  "inService b \<longleftrightarrow>
     RandomizationFactor b = 1 / 2 \<and> Multiplier b = 3 / 2 \<and> MaxInterval b = 60000000000 \<and>
     500000000 \<le> currentInterval b \<and> currentInterval b \<le> 60000000000"

definition nextInterval :: "int \<Rightarrow> int" where
  "nextInterval i = (if 40000000000 \<le> i then 60000000000 else 3 * i div 2)"

definition unitDraws :: "Env \<Rightarrow> bool" where
  "unitDraws env \<longleftrightarrow> (\<forall>k. 0 \<le> random env k \<and> random env k < 1)"

definition afterAttempt :: "World \<Rightarrow> Request \<Rightarrow> nat \<Rightarrow> World" where
  "afterAttempt w req latency = w\<lparr>sent := sent w @ [req], now := now w + int latency\<rparr>"

text \<open>The delay the policy \<open>b\<close> draws in the state \<open>w\<close>.\<close>

definition delayOf :: "Env \<Rightarrow> ExponentialBackOff \<Rightarrow> World \<Rightarrow> int" where
  "delayOf env b w =
     getRandomValueFromInterval (RandomizationFactor b) (random env (draws w)) (currentInterval b)"


definition initialPolicy :: "int64 \<Rightarrow> World \<Rightarrow> ExponentialBackOff" where
  "initialPolicy maxRetries w =
     \<lparr>InitialInterval = 500000000, RandomizationFactor = 1 / 2, Multiplier = 3 / 2,
      MaxInterval = 60000000000, MaxElapsedTime = sint (maxRetries * 10 * 1000000000),
      currentInterval = 500000000, startTime = now w\<rparr>"






text \<open>The state before anything has happened.\<close>

definition freshWorld :: World where
  "freshWorld = \<lparr>sent = [], now = 0, draws = 0\<rparr>"

section \<open>Proofs: track selection\<close>

subsection \<open>The loops find the first match\<close>

lemma findExact_first:
  "first_at (tier1 opts) tracks i \<Longrightarrow> findExact tracks opts = Some (tracks ! i)"
proof (induction tracks arbitrary: i)
  case Nil
  then show ?case by (simp add: first_at_def)
next
  case (Cons t ts)
  show ?case
  proof (cases i)
    case 0
    with Cons.prems show ?thesis by (simp add: first_at_def tier1_def)
  next
    case (Suc j)
    with Cons.prems have rest: "first_at (tier1 opts) ts j" and head: "\<not> tier1 opts t"
      by (simp_all add: first_at_def)
    from head have "findExact (t # ts) opts = findExact ts opts"
      by (auto simp: tier1_def)
    with Cons.IH [OF rest] Suc show ?thesis by simp
  qed
qed

lemma findExact_None:
  "list_all (\<lambda>t. \<not> tier1 opts t) tracks \<Longrightarrow> findExact tracks opts = None"
  by (induction tracks) (auto simp: tier1_def)

lemma findLanguage_first:
  "first_at (tier2 opts) tracks i \<Longrightarrow> findLanguage tracks opts = Some (tracks ! i)"
proof (induction tracks arbitrary: i)
  case Nil
  then show ?case by (simp add: first_at_def)
next
  case (Cons t ts)
  show ?case
  proof (cases i)
    case 0
    with Cons.prems show ?thesis by (simp add: first_at_def tier2_def)
  next
    case (Suc j)
    with Cons.prems have rest: "first_at (tier2 opts) ts j" and head: "\<not> tier2 opts t"
      by (simp_all add: first_at_def)
    from head have "findLanguage (t # ts) opts = findLanguage ts opts"
      by (auto simp: tier2_def)
    with Cons.IH [OF rest] Suc show ?thesis by simp
  qed
qed

lemma findLanguage_None:
  "list_all (\<lambda>t. \<not> tier2 opts t) tracks \<Longrightarrow> findLanguage tracks opts = None"
  by (induction tracks) (auto simp: tier2_def)

lemma tier1_imp_tier2: "tier1 opts t \<Longrightarrow> tier2 opts t"
  by (simp add: tier1_def tier2_def)

subsection \<open>Claims on the track selection\<close>

text \<open>
  C1, as stated: with no tier-1 and no tier-2 track the selector returns the first track of
  the list that has a non-empty baseUrl. The code looks at the head of the list only: for
  two tracks in other languages, the first without a URL and the second with one, it
  answers \<^verbatim>\<open>ErrNoCaptionsFound\<close> although the second track has a URL.
\<close>

theorem findCaptionTrack_fallback_counterexample:
  "findCaptionTrack
     [mkTrack [] (str ''fr'') (str ''asr''), mkTrack (str ''u'') (str ''es'') (str ''asr'')]
     DefaultOptions = Inl ErrNoCaptionsFound
   \<and> \<not> tier1 DefaultOptions (mkTrack [] (str ''fr'') (str ''asr''))
   \<and> \<not> tier1 DefaultOptions (mkTrack (str ''u'') (str ''es'') (str ''asr''))
   \<and> \<not> tier2 DefaultOptions (mkTrack [] (str ''fr'') (str ''asr''))
   \<and> \<not> tier2 DefaultOptions (mkTrack (str ''u'') (str ''es'') (str ''asr''))
   \<and> BaseURL (mkTrack (str ''u'') (str ''es'') (str ''asr'')) \<noteq> []"
  by (simp add: findCaptionTrack_def mkTrack_def tier1_def DefaultOptions_def tier2_def)

text \<open>
  C1, amended: with no tier-1 and no tier-2 track the selector returns the head of the list
  when the head has a non-empty baseUrl, whatever its language and kind, and
  \<^verbatim>\<open>ErrNoCaptionsFound\<close> when the list is empty or its head has an empty baseUrl.
\<close>

theorem findCaptionTrack_fallback:
  assumes "list_all (\<lambda>t. \<not> tier1 opts t) tracks"
    and "list_all (\<lambda>t. \<not> tier2 opts t) tracks"
  shows "findCaptionTrack tracks opts =
           (case tracks of
              [] \<Rightarrow> Inl ErrNoCaptionsFound
            | t # rest \<Rightarrow> if BaseURL t \<noteq> [] then Inr t else Inl ErrNoCaptionsFound)"
  using assms
  by (simp add: findCaptionTrack_def findExact_None findLanguage_None split: list.split)

theorem findCaptionTrack_fallback_witness:
  "list_all (\<lambda>t. \<not> tier1 DefaultOptions t)
     [mkTrack (str ''u'') (str ''es'') (str ''manual''), mkTrack (str ''v'') (str ''fr'') (str ''asr'')]
   \<and> list_all (\<lambda>t. \<not> tier2 DefaultOptions t)
     [mkTrack (str ''u'') (str ''es'') (str ''manual''), mkTrack (str ''v'') (str ''fr'') (str ''asr'')]
   \<and> findCaptionTrack
     [mkTrack (str ''u'') (str ''es'') (str ''manual''), mkTrack (str ''v'') (str ''fr'') (str ''asr'')]
     DefaultOptions
     = Inr (mkTrack (str ''u'') (str ''es'') (str ''manual''))"
proof -
  let ?opts = "DefaultOptions"
  let ?ts = "[mkTrack (str ''u'') (str ''es'') (str ''manual''),
              mkTrack (str ''v'') (str ''fr'') (str ''asr'')]"
  have h1: "list_all (\<lambda>t. \<not> tier1 ?opts t) ?ts"
    by (simp add: tier1_def DefaultOptions_def mkTrack_def)
  have h2: "list_all (\<lambda>t. \<not> tier2 ?opts t) ?ts"
    by (simp add: tier2_def mkTrack_def DefaultOptions_def)
  from findCaptionTrack_fallback [OF h1 h2] h1 h2 show ?thesis
    by (simp add: mkTrack_def DefaultOptions_def)
qed

text \<open>
  C2: the selector returns the first track with the requested language, the requested kind
  and a non-empty baseUrl when there is one; otherwise the first track with the requested
  language and a non-empty baseUrl when there is one. For tracks
  \<^verbatim>\<open>[{es,asr},{en,manual},{en,asr}]\<close>, all with a URL, and the request (en, asr) that is
  the third track; for the single track \<^verbatim>\<open>{en,manual}\<close> and the same request it is that
  track.
\<close>

theorem findCaptionTrack_tiers:
  "(first_at (tier1 opts) tracks i \<longrightarrow> findCaptionTrack tracks opts = Inr (tracks ! i))
   \<and> (list_all (\<lambda>t. \<not> tier1 opts t) tracks \<and> first_at (tier2 opts) tracks j
        \<longrightarrow> findCaptionTrack tracks opts = Inr (tracks ! j))
   \<and> (Language req = str ''en'' \<and> OptKind req = str ''asr''
        \<and> u1 \<noteq> [] \<and> u2 \<noteq> [] \<and> u3 \<noteq> [] \<longrightarrow>
        findCaptionTrack
          [mkTrack u1 (str ''es'') (str ''asr''), mkTrack u2 (str ''en'') (str ''manual''),
           mkTrack u3 (str ''en'') (str ''asr'')] req
        = Inr (mkTrack u3 (str ''en'') (str ''asr'')))
   \<and> (Language req = str ''en'' \<and> OptKind req = str ''asr'' \<and> u1 \<noteq> [] \<longrightarrow>
        findCaptionTrack [mkTrack u1 (str ''en'') (str ''manual'')] req
        = Inr (mkTrack u1 (str ''en'') (str ''manual'')))"
proof (intro conjI impI)
  assume "first_at (tier1 opts) tracks i"
  then show "findCaptionTrack tracks opts = Inr (tracks ! i)"
    by (simp add: findCaptionTrack_def findExact_first)
next
  assume "list_all (\<lambda>t. \<not> tier1 opts t) tracks \<and> first_at (tier2 opts) tracks j"
  then have "findExact tracks opts = None"
    and "findLanguage tracks opts = Some (tracks ! j)"
    by (simp_all add: findExact_None findLanguage_first)
  then show "findCaptionTrack tracks opts = Inr (tracks ! j)"
    by (simp add: findCaptionTrack_def)
next
  assume "Language req = str ''en'' \<and> OptKind req = str ''asr''
      \<and> u1 \<noteq> [] \<and> u2 \<noteq> [] \<and> u3 \<noteq> []"
  then show "findCaptionTrack
      [mkTrack u1 (str ''es'') (str ''asr''), mkTrack u2 (str ''en'') (str ''manual''),
       mkTrack u3 (str ''en'') (str ''asr'')] req
    = Inr (mkTrack u3 (str ''en'') (str ''asr''))"
    by (simp add: findCaptionTrack_def mkTrack_def)
next
  assume "Language req = str ''en'' \<and> OptKind req = str ''asr'' \<and> u1 \<noteq> []"
  then show "findCaptionTrack [mkTrack u1 (str ''en'') (str ''manual'')] req
    = Inr (mkTrack u1 (str ''en'') (str ''manual''))"
    by (simp add: findCaptionTrack_def mkTrack_def)
qed

text \<open>
  The same on concrete lists, for the default request (en, asr): a list whose first exact
  match is its fourth track, behind an exact match without URL; its first three tracks,
  where the language match decides; and the two scenarios.
\<close>

theorem findCaptionTrack_tiers_witness:
  "first_at (tier1 DefaultOptions)
     [mkTrack (str ''a'') (str ''es'') (str ''asr''), mkTrack [] (str ''en'') (str ''asr''),
      mkTrack (str ''b'') (str ''en'') (str ''manual''), mkTrack (str ''c'') (str ''en'') (str ''asr'')] 3
   \<and> findCaptionTrack
     [mkTrack (str ''a'') (str ''es'') (str ''asr''), mkTrack [] (str ''en'') (str ''asr''),
      mkTrack (str ''b'') (str ''en'') (str ''manual''), mkTrack (str ''c'') (str ''en'') (str ''asr'')]
     DefaultOptions
     = Inr (mkTrack (str ''c'') (str ''en'') (str ''asr''))
   \<and> list_all (\<lambda>t. \<not> tier1 DefaultOptions t)
     [mkTrack (str ''a'') (str ''es'') (str ''asr''), mkTrack [] (str ''en'') (str ''asr''),
      mkTrack (str ''b'') (str ''en'') (str ''manual'')]
   \<and> first_at (tier2 DefaultOptions)
     [mkTrack (str ''a'') (str ''es'') (str ''asr''), mkTrack [] (str ''en'') (str ''asr''),
      mkTrack (str ''b'') (str ''en'') (str ''manual'')] 2
   \<and> findCaptionTrack
     [mkTrack (str ''a'') (str ''es'') (str ''asr''), mkTrack [] (str ''en'') (str ''asr''),
      mkTrack (str ''b'') (str ''en'') (str ''manual'')]
     DefaultOptions
     = Inr (mkTrack (str ''b'') (str ''en'') (str ''manual''))
   \<and> Language DefaultOptions = str ''en'' \<and> OptKind DefaultOptions = str ''asr''
   \<and> str ''u'' \<noteq> []
   \<and> findCaptionTrack
     [mkTrack (str ''u'') (str ''es'') (str ''asr''), mkTrack (str ''u'') (str ''en'') (str ''manual''),
      mkTrack (str ''u'') (str ''en'') (str ''asr'')]
     DefaultOptions
     = Inr (mkTrack (str ''u'') (str ''en'') (str ''asr''))
   \<and> findCaptionTrack [mkTrack (str ''u'') (str ''en'') (str ''manual'')] DefaultOptions
     = Inr (mkTrack (str ''u'') (str ''en'') (str ''manual''))"
proof -
  let ?a = "mkTrack (str ''a'') (str ''es'') (str ''asr'')"
  let ?e = "mkTrack [] (str ''en'') (str ''asr'')"
  let ?b = "mkTrack (str ''b'') (str ''en'') (str ''manual'')"
  let ?c = "mkTrack (str ''c'') (str ''en'') (str ''asr'')"
  have f1: "first_at (tier1 DefaultOptions) [?a, ?e, ?b, ?c] 3"
    by (simp add: first_at_def tier1_def mkTrack_def DefaultOptions_def)
  have n1: "list_all (\<lambda>t. \<not> tier1 DefaultOptions t) [?a, ?e, ?b]"
    by (simp add: tier1_def mkTrack_def DefaultOptions_def)
  have f2: "first_at (tier2 DefaultOptions) [?a, ?e, ?b] 2"
    by (simp add: first_at_def tier2_def mkTrack_def DefaultOptions_def)
  have u: "str ''u'' \<noteq> []" by simp
  have d: "Language DefaultOptions = str ''en''" "OptKind DefaultOptions = str ''asr''"
    by (simp_all add: DefaultOptions_def)
  note t1 = findCaptionTrack_tiers
    [of DefaultOptions "[?a, ?e, ?b, ?c]" 3 0 DefaultOptions "str ''u''" "str ''u''" "str ''u''"]
  note t2 = findCaptionTrack_tiers
    [of DefaultOptions "[?a, ?e, ?b]" 0 2 DefaultOptions "str ''u''" "str ''u''" "str ''u''"]
  from t1 f1 have r1: "findCaptionTrack [?a, ?e, ?b, ?c] DefaultOptions = Inr ?c" by simp
  from t2 n1 f2 have r2: "findCaptionTrack [?a, ?e, ?b] DefaultOptions = Inr ?b" by simp
  from t1 u d have r3: "findCaptionTrack
      [mkTrack (str ''u'') (str ''es'') (str ''asr''), mkTrack (str ''u'') (str ''en'') (str ''manual''),
       mkTrack (str ''u'') (str ''en'') (str ''asr'')] DefaultOptions
      = Inr (mkTrack (str ''u'') (str ''en'') (str ''asr''))"
    by blast
  from t1 u d have r4: "findCaptionTrack [mkTrack (str ''u'') (str ''en'') (str ''manual'')]
      DefaultOptions = Inr (mkTrack (str ''u'') (str ''en'') (str ''manual''))"
    by blast
  from f1 r1 n1 f2 r2 u d r3 r4 show ?thesis by blast
qed

section \<open>Proofs: time codes\<close>

subsection \<open>Evaluating the arithmetic on numerals\<close>

lemma floor_rat_numeral_div [simp]:
  "\<lfloor>(numeral a :: rat) / numeral b\<rfloor> = numeral a div numeral b"
  by (metis floor_divide_of_int_eq of_int_numeral)

lemma floor_rat_neg_numeral_div [simp]:
  "\<lfloor>- ((numeral a :: rat) / numeral b)\<rfloor> = - numeral a div numeral b"
  by (metis floor_divide_of_int_eq of_int_numeral of_int_minus minus_divide_left)

lemma ceiling_rat_numeral_div [simp]:
  "\<lceil>(numeral a :: rat) / numeral b\<rceil> = - (- numeral a div numeral b)"
  unfolding ceiling_def by simp

lemma ceiling_rat_neg_numeral_div [simp]:
  "\<lceil>- ((numeral a :: rat) / numeral b)\<rceil> = - (numeral a div numeral b)"
  unfolding ceiling_def by simp

lemma replicate_numeral_unfold:
  "replicate (numeral k) x = x # replicate (pred_numeral k) x"
  by (simp add: numeral_eq_Suc)

lemmas f64_eval = f64_round_def f64_ulp_def ilog2.simps rat_ilog2_def round_half_even_def Let_def f64_of_int_def
  f64_div_def f64_mul_def f64_add_def f64_to_int_def

lemmas time_eval = Hours_def Minutes_def Seconds_def Nanoseconds_def Hour_def Minute_def
  Second_def quot_def rem_def

lemmas fmt_eval = fmt_0d_def fmt_d_def zeroPad_def digits.simps replicate_numeral_unfold

text \<open>Two doubles whose bit patterns are well known: 0.1 and one third.\<close>

lemma f64_round_tenth: "f64_round (1 / 10) = 3602879701896397 / 36028797018963968"
  by (simp add: f64_eval)

lemma f64_round_third: "f64_round (1 / 3) = 6004799503160661 / 18014398509481984"
  by (simp add: f64_eval)

text \<open>Above \<open>2\<^sup>5\<^sup>3\<close> the conversion of an integer rounds, ties to even.\<close>

lemma f64_of_int_rounds:
  "f64_of_int 9007199254740993 = 9007199254740992"
  "f64_of_int 9007199254740995 = 9007199254740996"
  "f64_of_int 9223372036854775807 = 9223372036854775808"
  by (simp_all add: f64_eval)

subsection \<open>The formatters at 0.0 and at 3661.234\<close>

lemma srtFields_at:
  "f64_to_int (f64_mul seconds (f64_of_int Second)) = t \<Longrightarrow>
   srtFields seconds =
     (f64_to_int (Hours t), rem (f64_to_int (Minutes t)) 60, rem (f64_to_int (Seconds t)) 60,
      rem (quot t 1000000) 1000)"
  by (simp add: srtFields_def Let_def Nanoseconds_def)

lemma vttFields_at:
  "f64_to_int (f64_mul seconds (f64_of_int Second)) = t \<Longrightarrow>
   vttFields seconds =
     (f64_to_int (Hours t), rem (f64_to_int (Minutes t)) 60, rem (f64_to_int (Seconds t)) 60,
      rem (quot t 1000000) 1000)"
  by (simp add: vttFields_def Let_def Nanoseconds_def)

text \<open>The double nearest to 3661.234 lies a little below it; its product with \<open>10\<^sup>9\<close> rounds to
  the integer 3661234000000.\<close>

lemma literal_3661_234: "f64_round (3661234 / 1000) = 8051138710017671 / 2199023255552"
  by (simp add: f64_eval)

lemma duration_3661_234:
  "f64_to_int (f64_mul (f64_round (3661234 / 1000)) (f64_of_int Second)) = 3661234000000"
  unfolding literal_3661_234 by (simp add: f64_eval Second_def)

lemma duration_0: "f64_to_int (f64_mul 0 (f64_of_int Second)) = 0"
  by (simp add: f64_eval Second_def)

lemma fields_0:
  "f64_to_int (Hours 0) = 0" "f64_to_int (Minutes 0) = 0" "f64_to_int (Seconds 0) = 0"
  by (simp_all add: f64_eval time_eval)

lemma fields_3661_234:
  "f64_to_int (Hours 3661234000000) = 1"
  "f64_to_int (Minutes 3661234000000) = 61"
  "f64_to_int (Seconds 3661234000000) = 3661"
  by (simp_all add: f64_eval time_eval)

lemma srtFields_0: "srtFields 0 = (0, 0, 0, 0)"
  by (simp add: srtFields_at [OF duration_0] fields_0 quot_def rem_def)

lemma vttFields_0: "vttFields 0 = (0, 0, 0, 0)"
  by (simp add: vttFields_at [OF duration_0] fields_0 quot_def rem_def)

lemma srtFields_3661_234: "srtFields (f64_round (3661234 / 1000)) = (1, 1, 1, 234)"
  by (simp only: srtFields_at [OF duration_3661_234] fields_3661_234) (simp add: quot_def rem_def)

lemma vttFields_3661_234: "vttFields (f64_round (3661234 / 1000)) = (1, 1, 1, 234)"
  by (simp only: vttFields_at [OF duration_3661_234] fields_3661_234) (simp add: quot_def rem_def)

text \<open>
  C8: the SRT formatter turns 0.0 into \<^verbatim>\<open>00:00:00,000\<close> and the VTT formatter turns it
  into \<^verbatim>\<open>00:00:00.000\<close>; at 3661.234 (the double nearest to that decimal) they return
  \<^verbatim>\<open>01:01:01,234\<close> and \<^verbatim>\<open>01:01:01.234\<close>.
\<close>

theorem format_time_examples:
  "formatSRTTime 0 = str ''00:00:00,000''
   \<and> formatVTTTime 0 = str ''00:00:00.000''
   \<and> formatSRTTime (f64_round (3661234 / 1000)) = str ''01:01:01,234''
   \<and> formatVTTTime (f64_round (3661234 / 1000)) = str ''01:01:01.234''"
  by (simp only: formatSRTTime_def formatVTTTime_def srtFields_0 vttFields_0
        srtFields_3661_234 vttFields_3661_234) (simp add: fmt_eval)

subsection \<open>The two formatters differ in the separator only\<close>

lemma digits_ge_48: "c \<in> set (digits n) \<Longrightarrow> 48 \<le> c"
proof (induction n arbitrary: c rule: digits.induct)
  case (1 n)
  show ?case
  proof (cases "n < 10")
    case True
    with "1.prems" show ?thesis by (simp add: digits.simps [of n])
  next
    case False
    with "1.prems" "1.IH" show ?thesis by (auto simp: digits.simps [of n])
  qed
qed

lemma fmt_0d_chars: "c \<in> set (fmt_0d w n) \<Longrightarrow> c = 45 \<or> 48 \<le> c"
  by (auto simp: fmt_0d_def zeroPad_def dest: digits_ge_48 split: if_splits)

lemma fmt_0d_commaToPeriod: "map commaToPeriod (fmt_0d w n) = fmt_0d w n"
proof -
  have "commaToPeriod c = c" if "c \<in> set (fmt_0d w n)" for c
    using fmt_0d_chars [OF that] by (auto simp: commaToPeriod_def)
  then show ?thesis by (simp add: map_idI)
qed

lemma fmt_0d_no_comma: "count_list (fmt_0d w n) 44 = 0"
  using fmt_0d_chars [of 44 w n] by (auto simp: count_list_0_iff)

lemma vttFields_eq_srtFields: "vttFields x = srtFields x"
  by (simp add: vttFields_def srtFields_def)

text \<open>
  C9: for every number of seconds the two formatters compute the same hours, minutes,
  seconds and milliseconds, and the VTT time code is the SRT time code with its comma, the
  only one it has, replaced by a period.
\<close>

theorem formatVTTTime_from_formatSRTTime:
  "vttFields x = srtFields x
   \<and> formatVTTTime x = map commaToPeriod (formatSRTTime x)
   \<and> count_list (formatSRTTime x) (of_char CHR '','') = 1"
proof (intro conjI)
  show "vttFields x = srtFields x" by (rule vttFields_eq_srtFields)
  obtain h m s ms where f: "srtFields x = (h, m, s, ms)" by (cases "srtFields x") auto
  show "formatVTTTime x = map commaToPeriod (formatSRTTime x)"
    by (simp add: formatVTTTime_def formatSRTTime_def vttFields_eq_srtFields f
        fmt_0d_commaToPeriod) (simp add: commaToPeriod_def)
  show "count_list (formatSRTTime x) (of_char CHR '','') = 1"
    by (simp add: formatSRTTime_def f fmt_0d_no_comma)
qed

section \<open>Proofs: extraction\<close>

subsection \<open>The loops in closed form\<close>

lemma segmentLoop_spoken:
  "UTF8 seg \<noteq> str ''\<newline>'' \<Longrightarrow>
   segmentLoop (TStartMs ev) (seg # segs) (acc, endTime)
     = segmentLoop (TStartMs ev) segs (acc @ UTF8 seg, max endTime (segmentEnd ev seg))"
  by (simp add: segmentEnd_def Let_def max_def)

lemma segmentLoop_newline:
  "UTF8 seg = str ''\<newline>'' \<Longrightarrow>
   segmentLoop (TStartMs ev) (seg # segs) (acc, endTime)
     = segmentLoop (TStartMs ev) segs (acc, endTime)"
  by simp

lemma segmentLoop_eq:
  "segmentLoop (TStartMs ev) segs (acc, endTime) =
     (acc @ concat (map UTF8 (filter (\<lambda>seg. UTF8 seg \<noteq> str ''\<newline>'') segs)),
      Max (insert endTime
            (set (map (segmentEnd ev) (filter (\<lambda>seg. UTF8 seg \<noteq> str ''\<newline>'') segs)))))"
proof (induction segs arbitrary: acc endTime)
  case Nil
  show ?case by simp
next
  case (Cons seg segs)
  let ?S = "set (map (segmentEnd ev) (filter (\<lambda>seg. UTF8 seg \<noteq> str ''\<newline>'') segs))"
  have fin: "finite ?S" by simp
  show ?case
  proof (cases "UTF8 seg = str ''\<newline>''")
    case True
    then show ?thesis
      by (simp only: segmentLoop_newline [OF True] Cons.IH) simp
  next
    case False
    have m: "Max (insert (max endTime (segmentEnd ev seg)) ?S)
               = Max (insert endTime (insert (segmentEnd ev seg) ?S))"
      using fin by (cases "?S = {}") (simp_all add: max.assoc)
    from False show ?thesis
      by (simp only: segmentLoop_spoken [OF False] Cons.IH m) simp
  qed
qed

lemma segmentLoop_event:
  "segmentLoop (TStartMs ev) (Segments ev) ([], spanStart ev)
     = (concat (map UTF8 (spokenSegments ev)), spanEnd ev)"
  by (simp add: segmentLoop_eq spokenSegments_def spanEnd_def)

lemma eventLoop_eq: "eventLoop events result = result @ List.map_filter eventSpan events"
proof (induction events arbitrary: result)
  case Nil
  show ?case by (simp add: List.map_filter_simps)
next
  case (Cons ev events)
  have s: "f64_div (f64_of_int (sint (TStartMs ev))) 1000 = spanStart ev"
    by (simp add: spanStart_def)
  show ?case
    by (simp add: Cons.IH s segmentLoop_event List.map_filter_simps eventSpan_def spanText_def)
qed

lemma GetSubtitleText_eq:
  "GetSubtitleText c =
     sortSlice (\<lambda>a b. StartTime a < StartTime b) (List.map_filter eventSpan (Events c))"
  by (simp add: GetSubtitleText_def eventLoop_eq)

subsection \<open>Sorting and trimming\<close>

lemma set_insertLeft: "set (insertLeft lt x ys) = insert x (set ys)"
  by (induction ys) auto

lemma set_sortSlice: "set (sortSlice lt xs) = set xs"
proof -
  have "set (foldl (\<lambda>acc x. insertLeft lt x acc) acc xs) = set acc \<union> set xs" for acc
    by (induction xs arbitrary: acc) (simp_all add: set_insertLeft)
  then show ?thesis by (simp add: sortSlice_def)
qed

lemma count_list_insertLeft:
  "count_list (insertLeft lt x ys) y = count_list (x # ys) y"
  by (induction ys) auto

lemma count_list_sortSlice: "count_list (sortSlice lt xs) y = count_list xs y"
proof -
  have "count_list (foldl (\<lambda>acc x. insertLeft lt x acc) acc xs) y
          = count_list acc y + count_list xs y" for acc
    by (induction xs arbitrary: acc) (simp_all add: count_list_insertLeft)
  then show ?thesis by (simp add: sortSlice_def)
qed

lemma sortSlice_Nil: "sortSlice lt [] = []"
  by (simp add: sortSlice_def)

lemma sortSlice_single: "sortSlice lt [x] = [x]"
  by (simp add: sortSlice_def)

text \<open>The reversed prefix stays sorted downwards by the key.\<close>

lemma sorted_insertLeft:
  fixes f :: "'a \<Rightarrow> 'k::linorder"
  assumes "sorted (rev (map f ys))"
  shows "sorted (rev (map f (insertLeft (\<lambda>a b. f a < f b) x ys)))"
  using assms
proof (induction ys)
  case Nil
  show ?case by simp
next
  case (Cons y ys)
  show ?case
  proof (cases "f x < f y")
    case True
    from Cons.prems have "sorted (rev (map f ys))" and le: "\<forall>z \<in> set ys. f z \<le> f y"
      by (auto simp: sorted_append)
    with Cons.IH have "sorted (rev (map f (insertLeft (\<lambda>a b. f a < f b) x ys)))" by simp
    with True le show ?thesis
      by (auto simp: sorted_append set_insertLeft)
  next
    case False
    with Cons.prems show ?thesis
      by (auto simp: sorted_append)
  qed
qed

lemma sorted_sortSlice:
  fixes f :: "'a \<Rightarrow> 'k::linorder"
  shows "sorted (map f (sortSlice (\<lambda>a b. f a < f b) xs))"
proof -
  have "sorted (rev (map f acc)) \<Longrightarrow>
        sorted (rev (map f (foldl (\<lambda>acc x. insertLeft (\<lambda>a b. f a < f b) x acc) acc xs)))" for acc
    by (induction xs arbitrary: acc) (simp_all add: sorted_insertLeft)
  from this [of "[]"] show ?thesis by (simp add: sortSlice_def rev_map)
qed

lemma dropWhile_rev_TrimSpace: "dropWhile isSpace (rev (TrimSpace s)) = rev (TrimSpace s)"
  by (simp add: TrimSpace_def dropWhile_idem)

lemma TrimSpace_prefix:
  "\<exists>zs. dropWhile isSpace s = TrimSpace s @ zs"
proof -
  let ?d = "dropWhile isSpace s"
  have "rev ?d = takeWhile isSpace (rev ?d) @ dropWhile isSpace (rev ?d)" by simp
  then have "?d = rev (dropWhile isSpace (rev ?d)) @ rev (takeWhile isSpace (rev ?d))"
    by (metis rev_append rev_rev_ident)
  then show ?thesis by (auto simp: TrimSpace_def)
qed

lemma dropWhile_TrimSpace: "dropWhile isSpace (TrimSpace s) = TrimSpace s"
proof (cases "TrimSpace s")
  case Nil
  then show ?thesis by simp
next
  case (Cons a as)
  obtain zs where z: "dropWhile isSpace s = TrimSpace s @ zs"
    using TrimSpace_prefix by blast
  with Cons have "dropWhile isSpace s = a # (as @ zs)" by simp
  then have "\<not> isSpace a" by (metis dropWhile_eq_Cons_conv)
  with Cons show ?thesis by simp
qed

lemma TrimSpace_idem: "TrimSpace (TrimSpace s) = TrimSpace s"
proof -
  have "TrimSpace (TrimSpace s) = rev (dropWhile isSpace (rev (TrimSpace s)))"
    unfolding TrimSpace_def [of "TrimSpace s"] by (simp only: dropWhile_TrimSpace)
  then show ?thesis by (simp add: dropWhile_rev_TrimSpace)
qed

text \<open>A trimmed string that is not empty neither begins nor ends with white space.\<close>

lemma TrimSpace_ends:
  assumes "TrimSpace s \<noteq> []"
  shows "\<not> isSpace (hd (TrimSpace s)) \<and> \<not> isSpace (last (TrimSpace s))"
proof -
  define t where "t = dropWhile isSpace s"
  define u where "u = dropWhile isSpace (rev t)"
  have ts: "TrimSpace s = rev u" by (simp add: TrimSpace_def t_def u_def)
  with assms have u: "u \<noteq> []" by simp
  then have "rev t \<noteq> []" by (auto simp: u_def)
  then have t: "t \<noteq> []" by simp
  have "\<not> isSpace (hd u)" using u unfolding u_def by (rule hd_dropWhile)
  then have l: "\<not> isSpace (last (rev u))" using u by (simp add: last_rev)
  have "rev t = takeWhile isSpace (rev t) @ u" by (simp add: u_def)
  then have "last (rev t) = last u" using u by (metis last_appendR)
  then have "last u = hd t" using t by (simp add: last_rev)
  moreover have "\<not> isSpace (hd t)" using t unfolding t_def by (rule hd_dropWhile)
  ultimately have "\<not> isSpace (hd (rev u))" using u by (simp add: hd_rev)
  with l show ?thesis unfolding ts by simp
qed

lemma TrimSpace_Nil: "TrimSpace [] = []"
  by (simp add: TrimSpace_def)

subsection \<open>Claims on the extraction\<close>

lemma GetSubtitleText_singleton:
  "GetSubtitleText \<lparr>Events = [ev]\<rparr> = (case eventSpan ev of None \<Rightarrow> [] | Some s \<Rightarrow> [s])"
  by (simp add: GetSubtitleText_eq List.map_filter_simps sortSlice_Nil sortSlice_single
      split: option.split)

lemma one_second: "f64_div (f64_of_int 1000) 1000 = 1"
  by (simp add: f64_eval)

lemma one_and_a_half_seconds: "f64_div (f64_of_int 1500) 1000 = 3 / 2"
  by (simp add: f64_eval)

lemma half_a_second: "f64_div (f64_of_int 500) 1000 = 1 / 2"
  by (simp add: f64_eval)

lemma two_seconds: "f64_div (f64_of_int 2000) 1000 = 2"
  by (simp add: f64_eval)

lemmas span_eval = eventSpan_def spanText_def spanStart_def spanEnd_def segmentEnd_def
  spokenSegments_def TrimSpace_def isSpace_def

text \<open>
  C3, as stated: the end of a span is the largest \<^verbatim>\<open>(startOffsetMs + offsetMs) / 1000\<close> of
  its segments that are not newline markers, and the start only when there is no such
  segment. The loop starts \<^verbatim>\<open>endTime\<close> at the start and only ever raises it: an event at
  1000 ms whose one segment has the offset -500 ms gets the end 1.0, while the claimed
  maximum is 0.5.
\<close>

theorem GetSubtitleText_spanEnd_counterexample:
  "GetSubtitleText
     \<lparr>Events = [\<lparr>TStartMs = 1000,
                  Segments = [\<lparr>UTF8 = str ''a'', TOffsetMs = - 500, AcAsrConf = 0\<rparr>]\<rparr>]\<rparr>
     = [\<lparr>StartTime = 1, EndTime = 1, Text = str ''a''\<rparr>]
   \<and> claimedSpanEnd
       \<lparr>TStartMs = 1000, Segments = [\<lparr>UTF8 = str ''a'', TOffsetMs = - 500, AcAsrConf = 0\<rparr>]\<rparr>
     = 1 / 2"
  by (simp add: GetSubtitleText_singleton claimedSpanEnd_def span_eval one_second half_a_second)

text \<open>
  C3, amended: every event with at least one segment is processed as follows. The start is
  \<^verbatim>\<open>startOffsetMs / 1000\<close>; the text is the concatenation, in order, of the segment texts
  other than the newline marker, trimmed, and the event yields no span when that is empty;
  the end is the largest of the start and of \<^verbatim>\<open>(startOffsetMs + offsetMs) / 1000\<close> over the
  segments other than the newline marker (\<open>eventSpan\<close>). The result holds these spans and
  no others, each as often as the events yield it. The event
  \<^verbatim>\<open>{tStartMs:1000, segs:[{"Hello",0},{" world",500}]}\<close> alone yields the one span from 1.0
  to 1.5 with the text \<^verbatim>\<open>Hello world\<close>, and an event whose only segment is the newline
  marker yields none.
\<close>

theorem GetSubtitleText_spans:
  "count_list (GetSubtitleText c) s = count_list (List.map_filter eventSpan (Events c)) s
   \<and> GetSubtitleText
       \<lparr>Events = [\<lparr>TStartMs = 1000,
                    Segments = [\<lparr>UTF8 = str ''Hello'', TOffsetMs = 0, AcAsrConf = a1\<rparr>,
                                \<lparr>UTF8 = str '' world'', TOffsetMs = 500, AcAsrConf = a2\<rparr>]\<rparr>]\<rparr>
     = [\<lparr>StartTime = 1, EndTime = 3 / 2, Text = str ''Hello world''\<rparr>]
   \<and> GetSubtitleText
       \<lparr>Events = [\<lparr>TStartMs = t,
                    Segments = [\<lparr>UTF8 = str ''\<newline>'', TOffsetMs = off, AcAsrConf = a3\<rparr>]\<rparr>]\<rparr>
     = []"
proof (intro conjI)
  show "count_list (GetSubtitleText c) s = count_list (List.map_filter eventSpan (Events c)) s"
    by (simp add: GetSubtitleText_eq count_list_sortSlice)
  show "GetSubtitleText
       \<lparr>Events = [\<lparr>TStartMs = 1000,
                    Segments = [\<lparr>UTF8 = str ''Hello'', TOffsetMs = 0, AcAsrConf = a1\<rparr>,
                                \<lparr>UTF8 = str '' world'', TOffsetMs = 500, AcAsrConf = a2\<rparr>]\<rparr>]\<rparr>
     = [\<lparr>StartTime = 1, EndTime = 3 / 2, Text = str ''Hello world''\<rparr>]"
    by (simp add: GetSubtitleText_singleton span_eval one_second one_and_a_half_seconds)
  show "GetSubtitleText
       \<lparr>Events = [\<lparr>TStartMs = t,
                    Segments = [\<lparr>UTF8 = str ''\<newline>'', TOffsetMs = off, AcAsrConf = a3\<rparr>]\<rparr>]\<rparr>
     = []"
    by (simp add: GetSubtitleText_singleton span_eval)
qed

text \<open>
  The same on three events: one starting with a newline marker, one without segments, one
  with a negative offset. Each of the two spans is in the result once.
\<close>

theorem GetSubtitleText_spans_witness:
  "count_list
     (GetSubtitleText
       \<lparr>Events = [\<lparr>TStartMs = 2000,
                    Segments = [\<lparr>UTF8 = str ''\<newline>'', TOffsetMs = 0, AcAsrConf = 0\<rparr>,
                                \<lparr>UTF8 = str '' b '', TOffsetMs = 0, AcAsrConf = 0\<rparr>]\<rparr>,
                  \<lparr>TStartMs = 500, Segments = []\<rparr>,
                  \<lparr>TStartMs = 1000,
                    Segments = [\<lparr>UTF8 = str ''a'', TOffsetMs = - 500, AcAsrConf = 0\<rparr>,
                                \<lparr>UTF8 = str ''c'', TOffsetMs = 500, AcAsrConf = 0\<rparr>]\<rparr>]\<rparr>)
     \<lparr>StartTime = 1, EndTime = 3 / 2, Text = str ''ac''\<rparr> = 1
   \<and> count_list
     (GetSubtitleText
       \<lparr>Events = [\<lparr>TStartMs = 2000,
                    Segments = [\<lparr>UTF8 = str ''\<newline>'', TOffsetMs = 0, AcAsrConf = 0\<rparr>,
                                \<lparr>UTF8 = str '' b '', TOffsetMs = 0, AcAsrConf = 0\<rparr>]\<rparr>,
                  \<lparr>TStartMs = 500, Segments = []\<rparr>,
                  \<lparr>TStartMs = 1000,
                    Segments = [\<lparr>UTF8 = str ''a'', TOffsetMs = - 500, AcAsrConf = 0\<rparr>,
                                \<lparr>UTF8 = str ''c'', TOffsetMs = 500, AcAsrConf = 0\<rparr>]\<rparr>]\<rparr>)
     \<lparr>StartTime = 2, EndTime = 2, Text = str ''b''\<rparr> = 1"
  by (simp only: GetSubtitleText_spans [THEN conjunct1])
     (simp add: List.map_filter_simps span_eval
        one_second one_and_a_half_seconds half_a_second two_seconds)

lemma eventSpan_Some:
  assumes "eventSpan ev = Some s"
  shows "Text s \<noteq> [] \<and> \<not> isSpace (hd (Text s)) \<and> \<not> isSpace (last (Text s))
       \<and> TrimSpace (Text s) = Text s \<and> StartTime s \<le> EndTime s"
proof -
  from assms have s: "s = \<lparr>StartTime = spanStart ev, EndTime = spanEnd ev, Text = spanText ev\<rparr>"
    and ne: "spanText ev \<noteq> []"
    by (auto simp: eventSpan_def split: if_splits)
  have "spanStart ev \<le> spanEnd ev"
    unfolding spanEnd_def by (rule Max_ge) simp_all
  moreover have "TrimSpace (spanText ev) = spanText ev"
    by (simp add: spanText_def TrimSpace_idem)
  moreover have "\<not> isSpace (hd (spanText ev)) \<and> \<not> isSpace (last (spanText ev))"
    using ne unfolding spanText_def by (rule TrimSpace_ends)
  ultimately show ?thesis using s ne by simp
qed

lemma in_map_filter: "y \<in> set (List.map_filter f xs) \<Longrightarrow> \<exists>x \<in> set xs. f x = Some y"
  by (auto simp: List.map_filter_def)

text \<open>
  C4: for every list of caption events, negative segment offsets included, the spans
  returned are sorted by start time (non-decreasing); every span's text is non-empty and
  trimmed, that is, it neither begins nor ends with a white-space character (and trimming
  it again changes nothing); and no span ends before it starts.
\<close>

theorem GetSubtitleText_invariants:
  "sorted (map StartTime (GetSubtitleText c))
   \<and> (\<forall>s \<in> set (GetSubtitleText c).
         Text s \<noteq> [] \<and> \<not> isSpace (hd (Text s)) \<and> \<not> isSpace (last (Text s))
         \<and> TrimSpace (Text s) = Text s \<and> StartTime s \<le> EndTime s)"
proof
  show "sorted (map StartTime (GetSubtitleText c))"
    unfolding GetSubtitleText_eq by (rule sorted_sortSlice)
next
  show "\<forall>s \<in> set (GetSubtitleText c).
          Text s \<noteq> [] \<and> \<not> isSpace (hd (Text s)) \<and> \<not> isSpace (last (Text s))
          \<and> TrimSpace (Text s) = Text s \<and> StartTime s \<le> EndTime s"
  proof
    fix s assume "s \<in> set (GetSubtitleText c)"
    then have "s \<in> set (List.map_filter eventSpan (Events c))"
      by (simp add: GetSubtitleText_eq set_sortSlice)
    then obtain ev where "eventSpan ev = Some s"
      using in_map_filter by fastforce
    then show "Text s \<noteq> [] \<and> \<not> isSpace (hd (Text s)) \<and> \<not> isSpace (last (Text s))
          \<and> TrimSpace (Text s) = Text s \<and> StartTime s \<le> EndTime s"
      by (rule eventSpan_Some)
  qed
qed

text \<open>
  Two events out of order, the later one with white space around its text and the earlier
  one with a negative segment offset: the spans come out in order, with the texts
  \<^verbatim>\<open>a\<close> and \<^verbatim>\<open>b\<close>.
\<close>

theorem GetSubtitleText_invariants_witness:
  "GetSubtitleText
     \<lparr>Events = [\<lparr>TStartMs = 2000,
                  Segments = [\<lparr>UTF8 = str '' b '', TOffsetMs = 0, AcAsrConf = 0\<rparr>]\<rparr>,
                \<lparr>TStartMs = 1000,
                  Segments = [\<lparr>UTF8 = str ''a'', TOffsetMs = - 500, AcAsrConf = 0\<rparr>]\<rparr>]\<rparr>
     = [\<lparr>StartTime = 1, EndTime = 1, Text = str ''a''\<rparr>,
        \<lparr>StartTime = 2, EndTime = 2, Text = str ''b''\<rparr>]
   \<and> sorted (map StartTime (GetSubtitleText
         \<lparr>Events = [\<lparr>TStartMs = 2000,
                      Segments = [\<lparr>UTF8 = str '' b '', TOffsetMs = 0, AcAsrConf = 0\<rparr>]\<rparr>,
                    \<lparr>TStartMs = 1000,
                      Segments = [\<lparr>UTF8 = str ''a'', TOffsetMs = - 500, AcAsrConf = 0\<rparr>]\<rparr>]\<rparr>))
   \<and> str ''b'' \<noteq> [] \<and> \<not> isSpace (hd (str ''b'')) \<and> \<not> isSpace (last (str ''b''))
   \<and> TrimSpace (str ''b'') = str ''b'' \<and> (2 :: float64) \<le> 2"
proof -
  let ?c = "\<lparr>Events = [\<lparr>TStartMs = 2000,
                      Segments = [\<lparr>UTF8 = str '' b '', TOffsetMs = 0, AcAsrConf = 0\<rparr>]\<rparr>,
                    \<lparr>TStartMs = 1000,
                      Segments = [\<lparr>UTF8 = str ''a'', TOffsetMs = - 500, AcAsrConf = 0\<rparr>]\<rparr>]\<rparr>"
  let ?s = "\<lparr>StartTime = 2, EndTime = 2, Text = str ''b''\<rparr>"
  have v: "GetSubtitleText ?c = [\<lparr>StartTime = 1, EndTime = 1, Text = str ''a''\<rparr>, ?s]"
    by (simp add: GetSubtitleText_eq List.map_filter_simps span_eval sortSlice_def
        one_second half_a_second two_seconds)
  then have m: "?s \<in> set (GetSubtitleText ?c)" by simp
  from GetSubtitleText_invariants [of ?c] m
  have "sorted (map StartTime (GetSubtitleText ?c))
     \<and> Text ?s \<noteq> [] \<and> \<not> isSpace (hd (Text ?s)) \<and> \<not> isSpace (last (Text ?s))
     \<and> TrimSpace (Text ?s) = Text ?s \<and> StartTime ?s \<le> EndTime ?s"
    by blast
  with v show ?thesis by simp
qed

section \<open>Proofs: renderings\<close>

lemma eventSpan_blank:
  "list_all (\<lambda>seg. UTF8 seg = str ''\<newline>'') (Segments ev) \<Longrightarrow> eventSpan ev = None"
proof -
  assume "list_all (\<lambda>seg. UTF8 seg = str ''\<newline>'') (Segments ev)"
  then have "spokenSegments ev = []"
    by (auto simp: spokenSegments_def list_all_iff filter_empty_conv)
  then show ?thesis by (simp add: eventSpan_def spanText_def TrimSpace_Nil)
qed

lemma map_filter_None: "list_all (\<lambda>x. f x = None) xs \<Longrightarrow> List.map_filter f xs = []"
  by (induction xs) (simp_all add: List.map_filter_simps)

text \<open>
  C10: when the extraction yields no span, the SRT rendering is the empty string, the VTT
  rendering is the header line \<^verbatim>\<open>WEBVTT\<close> followed by one blank line, and the plain text is
  the empty string. That is the case, for one, when every event is without segments or
  holds newline markers only.
\<close>

theorem renderings_without_spans:
  "(GetSubtitleText c = [] \<longrightarrow>
      GetSRT c = [] \<and> GetVTT c = str ''WEBVTT\<newline>\<newline>'' \<and> GetPlainText c = [])
   \<and> (list_all (\<lambda>ev. list_all (\<lambda>seg. UTF8 seg = str ''\<newline>'') (Segments ev)) (Events c) \<longrightarrow>
      GetSubtitleText c = [])"
proof (intro conjI impI)
  assume e: "GetSubtitleText c = []"
  show "GetSRT c = []" by (simp add: GetSRT_def e)
  show "GetVTT c = str ''WEBVTT\<newline>\<newline>''" by (simp add: GetVTT_def e)
  show "GetPlainText c = []" by (simp add: GetPlainText_def e TrimSpace_Nil)
next
  assume "list_all (\<lambda>ev. list_all (\<lambda>seg. UTF8 seg = str ''\<newline>'') (Segments ev)) (Events c)"
  then have "list_all (\<lambda>ev. eventSpan ev = None) (Events c)"
    by (auto simp: list_all_iff intro: eventSpan_blank)
  then show "GetSubtitleText c = []"
    by (simp add: GetSubtitleText_eq map_filter_None sortSlice_Nil)
qed

theorem renderings_without_spans_witness:
  "list_all (\<lambda>ev. list_all (\<lambda>seg. UTF8 seg = str ''\<newline>'') (Segments ev))
     (Events \<lparr>Events = [\<lparr>TStartMs = 0, Segments = []\<rparr>,
        \<lparr>TStartMs = 1000, Segments = [\<lparr>UTF8 = str ''\<newline>'', TOffsetMs = 0, AcAsrConf = 0\<rparr>]\<rparr>]\<rparr>)
   \<and> GetSubtitleText \<lparr>Events = [\<lparr>TStartMs = 0, Segments = []\<rparr>,
        \<lparr>TStartMs = 1000, Segments = [\<lparr>UTF8 = str ''\<newline>'', TOffsetMs = 0, AcAsrConf = 0\<rparr>]\<rparr>]\<rparr> = []
   \<and> GetSRT \<lparr>Events = [\<lparr>TStartMs = 0, Segments = []\<rparr>,
        \<lparr>TStartMs = 1000, Segments = [\<lparr>UTF8 = str ''\<newline>'', TOffsetMs = 0, AcAsrConf = 0\<rparr>]\<rparr>]\<rparr> = []
   \<and> GetVTT \<lparr>Events = [\<lparr>TStartMs = 0, Segments = []\<rparr>,
        \<lparr>TStartMs = 1000, Segments = [\<lparr>UTF8 = str ''\<newline>'', TOffsetMs = 0, AcAsrConf = 0\<rparr>]\<rparr>]\<rparr>
       = str ''WEBVTT\<newline>\<newline>''
   \<and> GetPlainText \<lparr>Events = [\<lparr>TStartMs = 0, Segments = []\<rparr>,
        \<lparr>TStartMs = 1000, Segments = [\<lparr>UTF8 = str ''\<newline>'', TOffsetMs = 0, AcAsrConf = 0\<rparr>]\<rparr>]\<rparr> = []"
proof -
  let ?c = "\<lparr>Events = [\<lparr>TStartMs = 0, Segments = []\<rparr>,
        \<lparr>TStartMs = 1000, Segments = [\<lparr>UTF8 = str ''\<newline>'', TOffsetMs = 0, AcAsrConf = 0\<rparr>]\<rparr>]\<rparr>"
  have h: "list_all (\<lambda>ev. list_all (\<lambda>seg. UTF8 seg = str ''\<newline>'') (Segments ev)) (Events ?c)"
    by simp
  with renderings_without_spans [of ?c] have e: "GetSubtitleText ?c = []" by blast
  with renderings_without_spans [of ?c]
  have "GetSRT ?c = [] \<and> GetVTT ?c = str ''WEBVTT\<newline>\<newline>'' \<and> GetPlainText ?c = []" by blast
  with h e show ?thesis by blast
qed

section \<open>Proofs: validation\<close>

lemma validateVideoID_invalid:
  "length videoID \<noteq> 11 \<or> \<not> list_all isVideoIDChar videoID \<Longrightarrow>
   validateVideoID videoID = Some ErrInvalidVideoID"
  by (auto simp: validateVideoID_def videoIDRegex_MatchString_def)

lemma validateVideoID_valid:
  "length videoID = 11 \<and> list_all isVideoIDChar videoID \<Longrightarrow> validateVideoID videoID = None"
  by (auto simp: validateVideoID_def videoIDRegex_MatchString_def)

text \<open>
  \<^verbatim>\<open>DownloadWithOptions\<close> with a nil \<^verbatim>\<open>opts\<close> panics, whatever the identifier, before
  anything is validated or sent.
\<close>

lemma DownloadWithOptions_nil:
  "DownloadWithOptions env videoID None w = Inl NilPointerDereference"
  by (simp add: DownloadWithOptions_def)

text \<open>
  C7: a string that is not eleven characters long, or that holds a character outside
  \<^verbatim>\<open>[A-Za-z0-9_-]\<close>, is rejected with \<^verbatim>\<open>ErrInvalidVideoID\<close>, whatever the surroundings
  and with the state unchanged (no request is sent, no clock read, no random value drawn),
  by \<^verbatim>\<open>DownloadWithContext\<close> with any \<^verbatim>\<open>opts\<close>, nil included, by \<^verbatim>\<open>DownloadWithOptions\<close>
  with any \<^verbatim>\<open>opts\<close> that is not nil, and by \<^verbatim>\<open>Download\<close>. A string of eleven such
  characters passes the validation. (A string with a character of more than one byte has
  a character outside the class, so the number of bytes need not be looked at.)
\<close>

theorem invalid_video_id_rejected:
  "(length videoID \<noteq> 11 \<or> \<not> list_all isVideoIDChar videoID \<longrightarrow>
      DownloadWithContext env videoID optsPtr w = Some (Inl ErrInvalidVideoID, w)
      \<and> DownloadWithOptions env videoID (Some opts) w = Inr (Some (Inl ErrInvalidVideoID, w))
      \<and> Download env videoID w = Inr (Some (Inl ErrInvalidVideoID, w)))
   \<and> (length videoID = 11 \<and> list_all isVideoIDChar videoID \<longrightarrow> validateVideoID videoID = None)"
  by (simp add: DownloadWithContext_def DownloadWithOptions_def Download_def
      validateVideoID_invalid validateVideoID_valid)

theorem invalid_video_id_rejected_witness:
  "length (str ''short'') \<noteq> 11
   \<and> DownloadWithContext noNetwork (str ''short'') None \<lparr>sent = [], now = 0, draws = 0\<rparr>
       = Some (Inl ErrInvalidVideoID, \<lparr>sent = [], now = 0, draws = 0\<rparr>)
   \<and> DownloadWithOptions noNetwork (str ''short'') (Some DefaultOptions)
         \<lparr>sent = [], now = 0, draws = 0\<rparr>
       = Inr (Some (Inl ErrInvalidVideoID, \<lparr>sent = [], now = 0, draws = 0\<rparr>))
   \<and> length (str ''vStJoetOxJ!'') = 11 \<and> \<not> list_all isVideoIDChar (str ''vStJoetOxJ!'')
   \<and> Download noNetwork (str ''vStJoetOxJ!'') \<lparr>sent = [], now = 0, draws = 0\<rparr>
       = Inr (Some (Inl ErrInvalidVideoID, \<lparr>sent = [], now = 0, draws = 0\<rparr>))
   \<and> length (str ''vStJoetOxJg'') = 11 \<and> list_all isVideoIDChar (str ''vStJoetOxJg'')
   \<and> validateVideoID (str ''vStJoetOxJg'') = None"
proof -
  let ?w = "\<lparr>sent = [], now = 0, draws = 0\<rparr>"
  have a: "length (str ''short'') \<noteq> 11" by simp
  have b: "length (str ''vStJoetOxJ!'') = 11 \<and> \<not> list_all isVideoIDChar (str ''vStJoetOxJ!'')"
    by (simp add: isVideoIDChar_def)
  have c: "length (str ''vStJoetOxJg'') = 11 \<and> list_all isVideoIDChar (str ''vStJoetOxJg'')"
    by (simp add: isVideoIDChar_def)
  from invalid_video_id_rejected [of "str ''short''" noNetwork None ?w DefaultOptions] a
  have r1: "DownloadWithContext noNetwork (str ''short'') None ?w = Some (Inl ErrInvalidVideoID, ?w)"
    and r1': "DownloadWithOptions noNetwork (str ''short'') (Some DefaultOptions) ?w
                = Inr (Some (Inl ErrInvalidVideoID, ?w))"
    by blast+
  from invalid_video_id_rejected [of "str ''vStJoetOxJ!''" noNetwork None ?w DefaultOptions] b
  have r2: "Download noNetwork (str ''vStJoetOxJ!'') ?w = Inr (Some (Inl ErrInvalidVideoID, ?w))"
    by blast
  from invalid_video_id_rejected [of "str ''vStJoetOxJg''" noNetwork None ?w DefaultOptions] c
  have r3: "validateVideoID (str ''vStJoetOxJg'') = None"
    by blast
  from a b c r1 r1' r2 r3 show ?thesis by blast
qed

section \<open>Proofs: rounding to float64\<close>

subsection \<open>The binary exponent\<close>

lemma ilog2_bounds:
  assumes "1 \<le> n"
  shows "0 \<le> ilog2 n \<and> 2 ^ nat (ilog2 n) \<le> n \<and> n < 2 * 2 ^ nat (ilog2 n)"
  using assms
proof (induction n rule: ilog2.induct)
  case (1 n)
  show ?case
  proof (cases "n < 2")
    case True
    with "1.prems" have "n = 1" by simp
    then show ?thesis by (simp add: ilog2.simps)
  next
    case False
    define m where "m = n div 2"
    define k where "k = ilog2 m"
    from False have m1: "1 \<le> m" by (simp add: m_def)
    from "1.IH" [OF False] m1 have k0: "0 \<le> k" and lo: "2 ^ nat k \<le> m" and hi: "m < 2 * 2 ^ nat k"
      by (simp_all add: m_def k_def)
    from False have e: "ilog2 n = 1 + k" by (simp add: ilog2.simps [of n] k_def m_def)
    from k0 have p: "(2::int) ^ nat (1 + k) = 2 * 2 ^ nat k"
      by (simp add: nat_add_distrib)
    have "2 * m \<le> n" and "n < 2 * m + 2" by (simp_all add: m_def)
    with lo hi k0 show ?thesis unfolding e p by auto
  qed
qed

lemma powi_nonneg: "0 \<le> k \<Longrightarrow> (2::rat) powi k = 2 ^ nat k"
  by (simp add: power_int_def)

lemma powi_neg: "0 \<le> k \<Longrightarrow> (2::rat) powi (- k) = 1 / 2 ^ nat k"
  by (simp add: power_int_def field_simps)

lemma rat_ilog2_bounds:
  assumes "0 < r"
  shows "2 powi (rat_ilog2 r) \<le> r \<and> r < 2 powi (rat_ilog2 r + 1)"
proof (cases "1 \<le> r")
  case True
  define n where "n = \<lfloor>r\<rfloor>"
  define k where "k = ilog2 n"
  from True have n1: "1 \<le> n" by (simp add: n_def)
  from ilog2_bounds [OF n1] have k0: "0 \<le> k" and lo: "2 ^ nat k \<le> n" and hi: "n < 2 * 2 ^ nat k"
    by (simp_all add: k_def)
  have e: "rat_ilog2 r = k" using True by (simp add: rat_ilog2_def k_def n_def)
  have nr: "of_int n \<le> r" and rn: "r < of_int (n + 1)"
    using floor_correct [of r] by (simp_all add: n_def)
  from lo have "(2::rat) ^ nat k \<le> of_int n"
    by (metis of_int_le_iff of_int_numeral of_int_power)
  with nr have a: "(2::rat) ^ nat k \<le> r" by linarith
  from hi have "(of_int (n + 1) :: rat) \<le> 2 * 2 ^ nat k"
    by (metis zless_imp_add1_zle of_int_le_iff of_int_numeral of_int_power of_int_mult)
  with rn have b: "r < 2 * 2 ^ nat k" by linarith
  from k0 have p1: "(2::rat) powi k = 2 ^ nat k" by (rule powi_nonneg)
  from k0 have p2: "(2::rat) powi (k + 1) = 2 * 2 ^ nat k"
    by (simp add: power_int_def nat_add_distrib)
  from a b show ?thesis unfolding e p1 p2 by simp
next
  case False
  define s where "s = 1 / r"
  define n where "n = \<lceil>s\<rceil> - 1"
  define k where "k = ilog2 n"
  from False assms have s1: "1 < s" by (simp add: s_def)
  then have "2 \<le> \<lceil>s\<rceil>" by (simp add: le_ceiling_iff)
  then have n1: "1 \<le> n" by (simp add: n_def)
  from ilog2_bounds [OF n1] have k0: "0 \<le> k" and lo: "2 ^ nat k \<le> n" and hi: "n < 2 * 2 ^ nat k"
    by (simp_all add: k_def)
  have e: "rat_ilog2 r = - (k + 1)" using False by (simp add: rat_ilog2_def k_def n_def s_def)
  have ns: "of_int n < s" and sn: "s \<le> of_int (n + 1)"
    using ceiling_correct [of s] by (simp_all add: n_def)
  from lo have "(2::rat) ^ nat k \<le> of_int n"
    by (metis of_int_le_iff of_int_numeral of_int_power)
  with ns have a: "(2::rat) ^ nat k < s" by linarith
  from hi have "(of_int (n + 1) :: rat) \<le> 2 * 2 ^ nat k"
    by (metis zless_imp_add1_zle of_int_le_iff of_int_numeral of_int_power of_int_mult)
  with sn have b: "s \<le> 2 * 2 ^ nat k" by linarith
  have r: "r = 1 / s" using assms by (simp add: s_def)
  have p1: "(2::rat) powi (- (k + 1)) = 1 / (2 * 2 ^ nat k)"
    using k0 powi_neg [of "k + 1"] by (simp add: nat_add_distrib)
  have p2: "(2::rat) powi (- (k + 1) + 1) = 1 / 2 ^ nat k"
    using k0 powi_neg [of k] by simp
  from s1 a b have "1 / (2 * 2 ^ nat k) \<le> 1 / s" and "1 / s < 1 / 2 ^ nat k"
    by (simp_all add: frac_le frac_less2)
  then have c: "1 / (2 * 2 ^ nat k) \<le> r" and d: "r < 1 / 2 ^ nat k"
    by (simp_all only: r)
  show ?thesis unfolding e p1 p2 using c d by simp
qed

subsection \<open>Rounding to the nearest integer, ties to even\<close>

lemma round_half_even_of_int: "round_half_even (of_int k) = k"
  by (simp add: round_half_even_def)

lemma round_half_even_mono:
  assumes "r \<le> s"
  shows "round_half_even r \<le> round_half_even s"
proof (cases "\<lfloor>r\<rfloor> = \<lfloor>s\<rfloor>")
  case True
  with assms have "r - of_int \<lfloor>r\<rfloor> \<le> s - of_int \<lfloor>s\<rfloor>" by simp
  with True show ?thesis by (auto simp: round_half_even_def Let_def)
next
  case False
  with assms have "\<lfloor>r\<rfloor> < \<lfloor>s\<rfloor>" by (simp add: floor_mono order.strict_iff_order)
  moreover have "round_half_even r \<le> \<lfloor>r\<rfloor> + 1" "\<lfloor>s\<rfloor> \<le> round_half_even s"
    by (auto simp: round_half_even_def Let_def)
  ultimately show ?thesis by linarith
qed

lemma round_half_even_minus: "round_half_even (- r) = - round_half_even r"
proof (cases "r = of_int \<lfloor>r\<rfloor>")
  case True
  then obtain k where "r = of_int k" ..
  then have "- r = of_int (- k)" by simp
  then show ?thesis unfolding \<open>r = of_int k\<close> by (simp only: round_half_even_of_int)
next
  case False
  define f where "f = \<lfloor>r\<rfloor>"
  define d where "d = r - of_int f"
  have "of_int \<lfloor>r\<rfloor> \<le> r" and "r < of_int \<lfloor>r\<rfloor> + 1"
    using floor_correct [of r] by simp_all
  with False have d0: "0 < d" and d1: "d < 1"
    unfolding d_def f_def by linarith+
  have r: "r = of_int f + d" by (simp add: d_def)
  have fl: "\<lfloor>- r\<rfloor> = - f - 1"
    using d0 d1 unfolding r by (intro floor_unique) simp_all
  have dm: "- r - of_int (- f - 1) = 1 - d" by (simp add: r)
  have a: "round_half_even r =
      (if d < 1 / 2 then f else if 1 / 2 < d then f + 1 else if even f then f else f + 1)"
    by (simp add: round_half_even_def Let_def f_def d_def)
  have b: "round_half_even (- r) =
      (if 1 - d < 1 / 2 then - f - 1 else if 1 / 2 < 1 - d then - f
       else if even (- f - 1) then - f - 1 else - f)"
    unfolding round_half_even_def Let_def fl dm by simp
  show ?thesis unfolding a b using d0 d1 by auto
qed

lemma round_half_even_error: "\<bar>of_int (round_half_even r) - r\<bar> \<le> 1 / 2"
proof -
  define f where "f = \<lfloor>r\<rfloor>"
  define d where "d = r - of_int f"
  have "of_int \<lfloor>r\<rfloor> \<le> r" and "r < of_int \<lfloor>r\<rfloor> + 1"
    using floor_correct [of r] by simp_all
  then have d0: "0 \<le> d" and d1: "d < 1"
    unfolding d_def f_def by linarith+
  have r: "r = of_int f + d" by (simp add: d_def)
  have a: "round_half_even r =
      (if d < 1 / 2 then f else if 1 / 2 < d then f + 1 else if even f then f else f + 1)"
    by (simp add: round_half_even_def Let_def f_def d_def)
  show ?thesis unfolding a using d0 d1 by (auto simp: r)
qed

subsection \<open>Sign and exactness\<close>

lemma f64_ulp_pos: "0 < f64_ulp x"
  by (simp add: f64_ulp_def)

lemma f64_ulp_minus: "f64_ulp (- x) = f64_ulp x"
  by (simp add: f64_ulp_def)

lemma f64_round_0: "f64_round 0 = 0"
  by (simp add: f64_round_def)

lemma f64_round_minus: "f64_round (- x) = - f64_round x"
  by (simp add: f64_round_def f64_ulp_minus round_half_even_minus)

lemma f64_round_nonneg:
  assumes "0 \<le> x"
  shows "0 \<le> f64_round x"
proof (cases "x = 0")
  case True
  then show ?thesis by (simp add: f64_round_0)
next
  case False
  from assms f64_ulp_pos [of x] have "0 \<le> x / f64_ulp x" by simp
  from round_half_even_mono [OF this] have "0 \<le> round_half_even (x / f64_ulp x)"
    using round_half_even_of_int [of 0] by simp
  with f64_ulp_pos [of x] False show ?thesis by (simp add: f64_round_def)
qed

text \<open>A number with a significand of 53 bits and an exponent in range is a double.\<close>

lemma f64_round_exact:
  assumes m: "\<bar>m\<bar> < 2 ^ 53" and j: "- 1074 \<le> j"
  shows "f64_round (of_int m * 2 powi j) = of_int m * 2 powi j"
proof (cases "m = 0")
  case True
  then show ?thesis by (simp add: f64_round_0)
next
  case False
  define x :: rat where "x = of_int m * 2 powi j"
  define g where "g = max (rat_ilog2 \<bar>x\<bar> - 52) (- 1074)"
  have x0: "x \<noteq> 0" using False by (simp add: x_def)
  then have xp: "0 < \<bar>x\<bar>" by simp
  have ax: "\<bar>x\<bar> = of_int \<bar>m\<bar> * 2 powi j" by (simp add: x_def abs_mult)
  from m have "(of_int \<bar>m\<bar> :: rat) < 2 ^ 53"
    by (metis of_int_less_iff of_int_numeral of_int_power)
  then have "\<bar>x\<bar> < 2 ^ 53 * 2 powi j" unfolding ax by simp
  also have "\<dots> = 2 powi (53 + j)" by (simp add: power_int_add)
  finally have "2 powi (rat_ilog2 \<bar>x\<bar>) < (2::rat) powi (53 + j)"
    using rat_ilog2_bounds [OF xp] by simp
  then have "rat_ilog2 \<bar>x\<bar> < 53 + j"
    by (metis not_le power_int_increasing one_le_numeral)
  with j have gj: "g \<le> j" by (simp add: g_def)
  have u: "f64_ulp x = 2 powi g" by (simp add: f64_ulp_def g_def)
  have "x / 2 powi g = of_int m * 2 powi (j - g)"
    by (simp add: x_def power_int_diff)
  also have "\<dots> = of_int (m * 2 ^ nat (j - g))"
    using gj by (simp add: power_int_def)
  finally have q: "x / 2 powi g = of_int (m * 2 ^ nat (j - g))" .
  have "f64_round x = of_int (m * 2 ^ nat (j - g)) * 2 powi g"
    using x0 unfolding f64_round_def u q round_half_even_of_int by simp
  also have "\<dots> = x / 2 powi g * 2 powi g" by (simp only: q)
  also have "\<dots> = x" by simp
  finally show ?thesis by (simp add: x_def)
qed

lemma f64_round_int: "\<bar>k\<bar> < 2 ^ 53 \<Longrightarrow> f64_round (of_int k) = of_int k"
  using f64_round_exact [of k 0] by simp

lemma f64_round_half_int: "\<bar>k\<bar> < 2 ^ 53 \<Longrightarrow> f64_round (of_int k / 2) = of_int k / 2"
  using f64_round_exact [of k "- 1"] by simp

subsection \<open>Rounding is monotone\<close>

lemma rat_ilog2_mono:
  assumes "0 < x" and "x \<le> y"
  shows "rat_ilog2 x \<le> rat_ilog2 y"
proof (rule ccontr)
  assume "\<not> rat_ilog2 x \<le> rat_ilog2 y"
  then have "rat_ilog2 y + 1 \<le> rat_ilog2 x" by simp
  then have "(2::rat) powi (rat_ilog2 y + 1) \<le> 2 powi (rat_ilog2 x)"
    by (intro power_int_increasing) simp_all
  moreover from assms have "0 < y" by simp
  ultimately show False
    using rat_ilog2_bounds [OF \<open>0 < x\<close>] rat_ilog2_bounds [OF \<open>0 < y\<close>] assms by linarith
qed

lemma f64_round_mono_pos:
  assumes x: "0 < x" and xy: "x \<le> y"
  shows "f64_round x \<le> f64_round y"
proof -
  from assms have y: "0 < y" by simp
  define gx where "gx = max (rat_ilog2 \<bar>x\<bar> - 52) (- 1074)"
  define gy where "gy = max (rat_ilog2 \<bar>y\<bar> - 52) (- 1074)"
  have ux: "f64_ulp x = 2 powi gx" and uy: "f64_ulp y = 2 powi gy"
    by (simp_all add: f64_ulp_def gx_def gy_def)
  have fx: "f64_round x = of_int (round_half_even (x / 2 powi gx)) * 2 powi gx"
    using x by (simp add: f64_round_def ux)
  have fy: "f64_round y = of_int (round_half_even (y / 2 powi gy)) * 2 powi gy"
    using y by (simp add: f64_round_def uy)
  from rat_ilog2_mono [OF x xy] x y have e: "rat_ilog2 \<bar>x\<bar> \<le> rat_ilog2 \<bar>y\<bar>" by simp
  then have g: "gx \<le> gy" by (simp add: gx_def gy_def)
  show ?thesis
  proof (cases "gx = gy")
    case True
    from xy have "x / 2 powi gy \<le> y / 2 powi gy" by (simp add: divide_right_mono)
    from round_half_even_mono [OF this] show ?thesis
      unfolding fx fy True by (simp add: mult_right_mono)
  next
    case False
    with g have lt: "gx < gy" by simp
    then have gy52: "gy = rat_ilog2 \<bar>y\<bar> - 52" and "rat_ilog2 \<bar>x\<bar> - 52 < gy"
      by (auto simp: gx_def gy_def)
    then have ex: "rat_ilog2 \<bar>x\<bar> + 1 \<le> gy + 52" by simp
    have "x < 2 powi (rat_ilog2 \<bar>x\<bar> + 1)"
      using rat_ilog2_bounds [of "\<bar>x\<bar>"] x by simp
    also have "\<dots> \<le> 2 powi (gy + 52)"
      using ex by (intro power_int_increasing) simp_all
    finally have xb: "x \<le> 2 powi (gy + 52)" by simp
    have "x / 2 powi gx \<le> 2 powi (gy + 52) / 2 powi gx"
      using xb by (simp add: divide_right_mono)
    also have "\<dots> = 2 powi (gy + 52 - gx)" by (simp add: power_int_diff)
    also have "\<dots> = of_int (2 ^ nat (gy + 52 - gx))"
      using lt by (simp add: power_int_def)
    finally have "round_half_even (x / 2 powi gx) \<le> 2 ^ nat (gy + 52 - gx)"
      using round_half_even_mono round_half_even_of_int by metis
    then have "(of_int (round_half_even (x / 2 powi gx)) :: rat) \<le> of_int (2 ^ nat (gy + 52 - gx))"
      by (simp only: of_int_le_iff)
    also have "(of_int (2 ^ nat (gy + 52 - gx)) :: rat) = 2 powi (gy + 52 - gx)"
      using lt by (simp add: power_int_def)
    finally have "f64_round x \<le> 2 powi (gy + 52 - gx) * 2 powi gx"
      unfolding fx by (simp add: mult_right_mono)
    also have "\<dots> = 2 powi (gy + 52)" by (simp flip: power_int_add)
    finally have lo: "f64_round x \<le> 2 powi (gy + 52)" .
    have "2 powi (gy + 52) \<le> y"
      using rat_ilog2_bounds [of "\<bar>y\<bar>"] y by (simp add: gy52)
    then have "2 powi (gy + 52) / 2 powi gy \<le> y / 2 powi gy"
      by (simp add: divide_right_mono)
    moreover have "(2::rat) powi (gy + 52) / 2 powi gy = of_int (2 ^ 52)"
      by (simp add: power_int_add)
    ultimately have "of_int (2 ^ 52) \<le> y / 2 powi gy" by simp
    then have "2 ^ 52 \<le> round_half_even (y / 2 powi gy)"
      using round_half_even_mono round_half_even_of_int by metis
    then have "(of_int (2 ^ 52) :: rat) \<le> of_int (round_half_even (y / 2 powi gy))"
      by (simp only: of_int_le_iff)
    then have "of_int (2 ^ 52) * 2 powi gy \<le> f64_round y"
      unfolding fy by (simp add: mult_right_mono)
    moreover have "(of_int (2 ^ 52) :: rat) * 2 powi gy = 2 powi (gy + 52)"
      by (simp add: power_int_add)
    ultimately have "2 powi (gy + 52) \<le> f64_round y" by simp
    with lo show ?thesis by linarith
  qed
qed

lemma f64_round_mono:
  assumes "x \<le> y"
  shows "f64_round x \<le> f64_round y"
proof -
  consider "0 < x" | "x \<le> 0" "0 \<le> y" | "y < 0" by linarith
  then show ?thesis
  proof cases
    case 1
    from 1 assms show ?thesis by (rule f64_round_mono_pos)
  next
    case 2
    then have "0 \<le> f64_round (- x)" and "0 \<le> f64_round y"
      by (simp_all add: f64_round_nonneg)
    then show ?thesis by (simp add: f64_round_minus)
  next
    case 3
    with assms have "0 < - y" and "- y \<le> - x" by simp_all
    from f64_round_mono_pos [OF this] show ?thesis by (simp add: f64_round_minus)
  qed
qed

section \<open>Proofs: the retry policy\<close>

subsection \<open>Delays and intervals\<close>

lemma f64_to_int_floor:
  assumes "0 \<le> x" and "x < 2 ^ 63"
  shows "f64_to_int x = \<lfloor>x\<rfloor>"
proof -
  from assms have "0 \<le> \<lfloor>x\<rfloor>" by simp
  moreover from assms have "\<lfloor>x\<rfloor> < 2 ^ 63"
    by (metis floor_less_iff of_int_numeral of_int_power)
  ultimately show ?thesis using assms by (simp add: f64_to_int_def Let_def)
qed

text \<open>
  With the randomization factor one half and an interval \<open>I\<close> the bounds
  \<^verbatim>\<open>minInterval\<close> and \<^verbatim>\<open>maxInterval\<close> are \<open>I/2\<close> and \<open>3I/2\<close>, computed without rounding.
\<close>

lemma getRandomValueFromInterval_half:
  assumes I: "0 < I" "I < 2 ^ 50"
  shows "getRandomValueFromInterval (1 / 2) r I
           = f64_to_int (f64_add (of_int I / 2) (f64_mul r (of_int I + 1)))"
proof -
  from I have a1: "\<bar>I\<bar> < 2 ^ 53" and a3: "\<bar>3 * I\<bar> < 2 ^ 53" and a4: "\<bar>I + 1\<bar> < 2 ^ 53"
    by simp_all
  have fI: "f64_of_int I = of_int I"
    using a1 by (simp add: f64_of_int_def f64_round_int)
  have delta: "f64_mul (1 / 2) (of_int I) = of_int I / 2"
    using f64_round_half_int [OF a1] by (simp add: f64_mul_def)
  have mn: "f64_sub (of_int I) (of_int I / 2) = of_int I / 2"
    using f64_round_half_int [OF a1] by (simp add: f64_sub_def)
  have mx: "f64_add (of_int I) (of_int I / 2) = 3 * of_int I / 2"
    using f64_round_half_int [OF a3] by (simp add: f64_add_def)
  have df: "f64_sub (3 * of_int I / 2) (of_int I / 2) = of_int I"
    using f64_round_int [OF a1] by (simp add: f64_sub_def)
  have p1: "f64_add (of_int I) 1 = of_int I + 1"
    using f64_round_int [OF a4] by (simp add: f64_add_def)
  show ?thesis
    by (simp add: getRandomValueFromInterval_def Let_def fI delta mn mx df p1)
qed

lemma getRandomValueFromInterval_bounds:
  assumes r: "0 \<le> r" "r < 1" and I: "0 < I" "I < 2 ^ 50"
  shows "I div 2 \<le> getRandomValueFromInterval (1 / 2) r I
       \<and> getRandomValueFromInterval (1 / 2) r I \<le> 3 * I div 2 + 1"
proof -
  from I have a1: "\<bar>I\<bar> < 2 ^ 53" and a4: "\<bar>I + 1\<bar> < 2 ^ 53" and a5: "\<bar>3 * I + 2\<bar> < 2 ^ 53"
    by simp_all
  define p where "p = f64_mul r (of_int I + 1)"
  define s where "s = f64_add (of_int I / 2) p"
  have res: "getRandomValueFromInterval (1 / 2) r I = f64_to_int s"
    by (simp add: getRandomValueFromInterval_half [OF I] p_def s_def)
  have "0 \<le> r * (of_int I + 1)" using r I by simp
  then have p0: "0 \<le> p" unfolding p_def f64_mul_def by (rule f64_round_nonneg)
  have "r * (of_int I + 1) \<le> of_int I + 1" using r I by (simp add: mult_left_le_one_le)
  from f64_round_mono [OF this] have pI: "p \<le> of_int I + 1"
    unfolding p_def f64_mul_def using f64_round_int [OF a4] by simp
  have "of_int I / 2 \<le> of_int I / 2 + p" using p0 by simp
  from f64_round_mono [OF this] have s_lo: "of_int I / 2 \<le> s"
    unfolding s_def f64_add_def using f64_round_half_int [OF a1] by simp
  have "of_int I / 2 + p \<le> of_int (3 * I + 2) / 2" using pI by simp
  from f64_round_mono [OF this] have s_hi: "s \<le> of_int (3 * I + 2) / 2"
    unfolding s_def f64_add_def using f64_round_half_int [OF a5] by simp
  from s_lo I have s0: "0 \<le> s" by (simp add: order_trans [of 0 "of_int I / 2"])
  have "of_int (3 * I + 2) / 2 < (2::rat) ^ 63"
  proof -
    from I have "3 * I + 2 < 2 ^ 63" by simp
    then have "(of_int (3 * I + 2) :: rat) < 2 ^ 63"
      by (metis of_int_less_iff of_int_numeral of_int_power)
    then show ?thesis by simp
  qed
  with s_hi have s63: "s < 2 ^ 63" by linarith
  have fl: "f64_to_int s = \<lfloor>s\<rfloor>" using s0 s63 by (rule f64_to_int_floor)
  have "\<lfloor>of_int I / (of_int 2 :: rat)\<rfloor> \<le> \<lfloor>s\<rfloor>"
    using s_lo by (intro floor_mono) simp
  then have lo: "I div 2 \<le> \<lfloor>s\<rfloor>" by (simp only: floor_divide_of_int_eq)
  have "\<lfloor>s\<rfloor> \<le> \<lfloor>of_int (3 * I + 2) / (of_int 2 :: rat)\<rfloor>"
    using s_hi by (intro floor_mono) simp
  then have hi: "\<lfloor>s\<rfloor> \<le> (3 * I + 2) div 2" by (simp only: floor_divide_of_int_eq)
  from lo hi show ?thesis unfolding res fl by simp
qed

lemma incrementCurrentInterval_inService:
  assumes "inService b"
  shows "incrementCurrentInterval b = b\<lparr>currentInterval := nextInterval (currentInterval b)\<rparr>"
proof -
  define I where "I = currentInterval b"
  from assms have rf: "Multiplier b = 3 / 2" and mi: "MaxInterval b = 60000000000"
    and I: "500000000 \<le> I" "I \<le> 60000000000"
    by (simp_all add: inService_def I_def)
  from I have a1: "\<bar>I\<bar> < 2 ^ 53" and a3: "\<bar>3 * I\<bar> < 2 ^ 53" by simp_all
  have fI: "f64_of_int I = of_int I"
    using a1 by (simp add: f64_of_int_def f64_round_int)
  have fM: "f64_div (f64_of_int 60000000000) (3 / 2) = 40000000000"
    using f64_round_int [of 60000000000] f64_round_int [of 40000000000]
    by (simp add: f64_of_int_def f64_div_def)
  have eq: "of_int I * (3 / 2) = (of_int (3 * I) / 2 :: rat)" by simp
  have m: "f64_mul (of_int I) (3 / 2) = of_int (3 * I) / 2"
    unfolding f64_mul_def eq by (rule f64_round_half_int [OF a3])
  have "(0::rat) \<le> of_int (3 * I) / 2" using I by simp
  moreover have "of_int (3 * I) / 2 < (2::rat) ^ 63"
  proof -
    from I have "3 * I < 2 ^ 63" by simp
    then have "(of_int (3 * I) :: rat) < 2 ^ 63"
      by (metis of_int_less_iff of_int_numeral of_int_power)
    then show ?thesis by simp
  qed
  ultimately have "f64_to_int (of_int (3 * I) / 2) = \<lfloor>(of_int (3 * I) / 2 :: rat)\<rfloor>"
    by (rule f64_to_int_floor)
  also have "\<dots> = \<lfloor>of_int (3 * I) / (of_int 2 :: rat)\<rfloor>" by simp
  also have "\<dots> = 3 * I div 2" by (simp only: floor_divide_of_int_eq)
  finally have t: "f64_to_int (of_int (3 * I) / 2) = 3 * I div 2" .
  have c: "(40000000000 \<le> (of_int I :: rat)) = (40000000000 \<le> I)"
    by (metis of_int_le_iff of_int_numeral)
  show ?thesis
    unfolding incrementCurrentInterval_def rf mi fM nextInterval_def I_def [symmetric] fI m t c
    by simp
qed


subsection \<open>One round of the loop\<close>

lemma operation_Replied:
  assumes "reply env (length (sent w)) req = (latency, Replied resp)"
  shows "operation env req w =
           (if StatusCode resp = 200 then Inr resp else Inl (statusError (StatusCode resp)),
            afterAttempt w req latency)"
  using assms by (simp add: operation_def clientDo_def statusError_def afterAttempt_def)

lemma NextBackOff_inService:
  assumes "inService b"
  shows "NextBackOff env b w =
           (if MaxElapsedTime b \<noteq> 0 \<and> now w - startTime b + delayOf env b w > MaxElapsedTime b
            then Stop else delayOf env b w,
            b\<lparr>currentInterval := nextInterval (currentInterval b)\<rparr>,
            w\<lparr>draws := draws w + 1\<rparr>)"
  by (simp add: NextBackOff_def Let_def delayOf_def incrementCurrentInterval_inService [OF assms])

lemma delayOf_bounds:
  assumes "inService b" and "unitDraws env"
  shows "currentInterval b div 2 \<le> delayOf env b w
       \<and> delayOf env b w \<le> 3 * currentInterval b div 2 + 1"
proof -
  from assms(1) have rf: "RandomizationFactor b = 1 / 2"
    and I: "0 < currentInterval b" "currentInterval b < 2 ^ 50"
    by (simp_all add: inService_def)
  from assms(2) have r: "0 \<le> random env (draws w)" "random env (draws w) < 1"
    by (simp_all add: unitDraws_def)
  from getRandomValueFromInterval_bounds [OF r I] show ?thesis
    by (simp add: delayOf_def rf)
qed

lemma delayOf_positive:
  assumes "inService b" and "unitDraws env"
  shows "250000000 \<le> delayOf env b w"
proof -
  from assms(1) have "500000000 \<le> currentInterval b" by (simp add: inService_def)
  then have "250000000 \<le> currentInterval b div 2" by simp
  with delayOf_bounds [OF assms, of w] show ?thesis by linarith
qed

text \<open>One round of the loop on a response that is not a 200.\<close>

lemma retryLoop_step:
  assumes b: "inService b" and d: "unitDraws env"
    and r: "reply env (length (sent w)) req = (latency, Replied resp)"
    and s: "StatusCode resp \<noteq> 200"
  shows "retryLoop (operation env req) env b w =
           (if MaxElapsedTime b \<noteq> 0
               \<and> now w + int latency - startTime b + delayOf env b (afterAttempt w req latency)
                   > MaxElapsedTime b
            then Some (Inl (statusError (StatusCode resp)),
                       (afterAttempt w req latency)\<lparr>draws := draws w + 1\<rparr>)
            else retryLoop (operation env req) env
                   (b\<lparr>currentInterval := nextInterval (currentInterval b)\<rparr>)
                   ((afterAttempt w req latency)
                      \<lparr>draws := draws w + 1,
                       now := now w + int latency + delayOf env b (afterAttempt w req latency)\<rparr>))"
proof -
  let ?w1 = "afterAttempt w req latency"
  have n: "now ?w1 = now w + int latency" and dr: "draws ?w1 = draws w"
    by (simp_all add: afterAttempt_def)
  from delayOf_positive [OF b d, of ?w1] have ns: "delayOf env b ?w1 \<noteq> Stop"
    by (simp add: Stop_def)
  show ?thesis
    apply (subst retryLoop.simps)
    apply (simp only: operation_Replied [OF r] s if_False prod.case sum.case
        NextBackOff_inService [OF b] n dr)
    using ns apply (simp add: Stop_def n)
    done
qed

lemma retryLoop_success:
  assumes r: "reply env (length (sent w)) req = (latency, Replied resp)"
    and s: "StatusCode resp = 200"
  shows "retryLoop (operation env req) env b w = Some (Inr resp, afterAttempt w req latency)"
  by (subst retryLoop.simps) (simp add: operation_Replied [OF r] s)

lemma makeRequestWithRetry_initialPolicy:
  "makeRequestWithRetry env req maxRetries w
     = retryLoop (operation env req) env (initialPolicy maxRetries w) w"
  by (simp add: makeRequestWithRetry_def Retry_def Reset_def NewExponentialBackOff_def
      initialPolicy_def Millisecond_def Second_def Minute_def)

lemma inService_initialPolicy: "inService (initialPolicy maxRetries w)"
  by (simp add: inService_def initialPolicy_def)

subsection \<open>Runs of the loop\<close>




text \<open>The delays drawn around 500 ms and around 750 ms with the random value one half.\<close>

lemma delay_half_500ms: "getRandomValueFromInterval (1 / 2) (1 / 2) 500000000 = 500000000"
proof -
  have "getRandomValueFromInterval (1 / 2) (1 / 2) 500000000
          = f64_to_int (f64_add (of_int 500000000 / 2) (f64_mul (1 / 2) (of_int 500000000 + 1)))"
    by (rule getRandomValueFromInterval_half) simp_all
  also have "\<dots> = 500000000" by (simp add: f64_eval)
  finally show ?thesis .
qed


subsection \<open>Claims on the retry loop\<close>




section \<open>Proofs: statuses that are not to be retried\<close>

text \<open>
  A first response other than 200, whatever its status, followed by a 200: the call with the
  default budget sends a second request and returns the second response, when the first
  attempt took no more than 29 seconds.
\<close>

lemma makeRequestWithRetry_second_time:
  assumes d: "unitDraws env"
    and r0: "reply env (length (sent w)) req = (l0, Replied resp0)"
    and r1: "reply env (length (sent w) + 1) req = (l1, Replied resp1)"
    and s0: "StatusCode resp0 \<noteq> 200" and s1: "StatusCode resp1 = 200"
    and fast: "int l0 \<le> 29000000000"
  shows "\<exists>d0. 250000000 \<le> d0 \<and> d0 \<le> 750000001
           \<and> makeRequestWithRetry env req 3 w
               = Some (Inr resp1,
                       \<lparr>sent = sent w @ [req, req], now = now w + int l0 + d0 + int l1,
                        draws = draws w + 1\<rparr>)"
proof -
  let ?b0 = "initialPolicy 3 w"
  let ?w1 = "afterAttempt w req l0"
  let ?d0 = "delayOf env ?b0 ?w1"
  let ?b1 = "?b0\<lparr>currentInterval := nextInterval (currentInterval ?b0)\<rparr>"
  let ?w2 = "?w1\<lparr>draws := draws w + 1, now := now w + int l0 + ?d0\<rparr>"
  have i0: "inService ?b0" by (rule inService_initialPolicy)
  have c0: "currentInterval ?b0 = 500000000" by (simp add: initialPolicy_def)
  have B0: "MaxElapsedTime ?b0 = 30000000000" by (simp add: initialPolicy_def)
  have st: "startTime ?b0 = now w" by (simp add: initialPolicy_def)
  from delayOf_bounds [OF i0 d, of ?w1] have d0: "250000000 \<le> ?d0" "?d0 \<le> 750000001"
    unfolding c0 by simp_all
  have len2: "length (sent ?w2) = length (sent w) + 1" by (simp add: afterAttempt_def)
  have step0: "retryLoop (operation env req) env ?b0 w
                 = retryLoop (operation env req) env ?b1 ?w2"
    using retryLoop_step [OF i0 d r0 s0] d0 fast unfolding B0 st by simp
  have r1': "reply env (length (sent ?w2)) req = (l1, Replied resp1)"
    unfolding len2 by (rule r1)
  have fin: "retryLoop (operation env req) env ?b1 ?w2 = Some (Inr resp1, afterAttempt ?w2 req l1)"
    using r1' s1 by (rule retryLoop_success)
  have w: "afterAttempt ?w2 req l1
             = \<lparr>sent = sent w @ [req, req], now = now w + int l0 + ?d0 + int l1,
                draws = draws w + 1\<rparr>"
    by (simp add: afterAttempt_def)
  have "makeRequestWithRetry env req 3 w
          = Some (Inr resp1,
                  \<lparr>sent = sent w @ [req, req], now = now w + int l0 + ?d0 + int l1,
                   draws = draws w + 1\<rparr>)"
    unfolding makeRequestWithRetry_initialPolicy step0 fin w ..
  with d0 show ?thesis by blast
qed

text \<open>
  C5: a first response of 404 is to end the call with \<^verbatim>\<open>ErrNoCaptionsFound\<close>, and any
  other 4xx with a request error, without a further attempt. The operation returns a plain
  error for these statuses, as it does for 429 and 5xx, and the loop retries every plain
  error: against a server that answers 404 and then 200 the call sends a second request
  half a second later and returns the 200 response.
\<close>

theorem not_found_is_retried:
  "makeRequestWithRetry notFoundThenOK req 3 freshWorld
     = Some (Inr \<lparr>StatusCode = 200, Body = Readable (Some []) None\<rparr>,
             \<lparr>sent = [req, req], now = 700000000, draws = 1\<rparr>)"
proof -
  let ?b0 = "initialPolicy 3 freshWorld"
  let ?w1 = "afterAttempt freshWorld req 100000000"
  have u: "unitDraws notFoundThenOK" by (simp add: unitDraws_def notFoundThenOK_def)
  have i0: "inService ?b0" by (rule inService_initialPolicy)
  have r0: "reply notFoundThenOK (length (sent freshWorld)) req
              = (100000000, Replied \<lparr>StatusCode = 404, Body = Readable (Some []) None\<rparr>)"
    by (simp add: notFoundThenOK_def freshWorld_def)
  have dl: "delayOf notFoundThenOK ?b0 ?w1 = 500000000"
    by (simp add: delayOf_def initialPolicy_def notFoundThenOK_def delay_half_500ms)
  have step: "retryLoop (operation notFoundThenOK req) notFoundThenOK ?b0 freshWorld
      = retryLoop (operation notFoundThenOK req) notFoundThenOK
          (?b0\<lparr>currentInterval := nextInterval (currentInterval ?b0)\<rparr>)
          \<lparr>sent = [req], now = 600000000, draws = 1\<rparr>"
    using retryLoop_step [OF i0 u r0] unfolding dl
    by (simp add: initialPolicy_def freshWorld_def afterAttempt_def)
  have r1: "reply notFoundThenOK (length (sent \<lparr>sent = [req], now = 600000000, draws = 1\<rparr>)) req
              = (100000000, Replied \<lparr>StatusCode = 200, Body = Readable (Some []) None\<rparr>)"
    by (simp add: notFoundThenOK_def)
  have s1: "StatusCode \<lparr>StatusCode = 200, Body = Readable (Some []) None\<rparr> = 200" by simp
  show ?thesis
    unfolding makeRequestWithRetry_initialPolicy step retryLoop_success [OF r1 s1]
    by (simp add: afterAttempt_def)
qed

text \<open>
  The older variant does what the newer one misses: a response below 500 other than 429
  ends its loop after the one attempt.
\<close>

lemma makeRequestWithRetry_v1_no_retry:
  assumes "reply env (length (sent w)) req = (latency, Replied resp)"
    and "StatusCode resp < 500" and "StatusCode resp \<noteq> 429"
  shows "makeRequestWithRetry_v1 env req w = Some (Inr resp, afterAttempt w req latency)"
  unfolding makeRequestWithRetry_v1_def Let_def Retry_def
  apply (subst retryLoop.simps)
  using assms apply (simp add: operation_v1_def clientDo_def afterAttempt_def)
  done

end
